theory Spec2Isabelle
  imports Complex_Main "HOL-Library.Multiset" "HOL-Library.List_Lexorder"
begin

section \<open>Text: Python strings and the team-name normalizer\<close>

text \<open>
  A Python \<open>str\<close> is a sequence of Unicode code points; a code point is a natural number
  and an ASCII literal is written \<open>str ''...''\<close>.
\<close>

type_synonym codepoint = nat
type_synonym pystr = "codepoint list"

definition str :: "string \<Rightarrow> pystr" where
  "str s = map of_char s"

text \<open>
  The functions of Python's standard library that the application calls and that depend on
  the Unicode character database or on the time-zone database are not part of the
  repository. They are taken as parameters, collected in one record:
  \<^item> \<open>py_nfkd\<close>: \<open>unicodedata.normalize("NFKD", text)\<close>;
  \<^item> \<open>py_combining\<close>: \<open>unicodedata.combining(ch)\<close>, the canonical combining class;
  \<^item> \<open>py_lower\<close>: \<open>str.lower\<close>;
  \<^item> \<open>re_word\<close>: the class \<open>\w\<close> of \<open>re\<close> on \<open>str\<close> patterns;
  \<^item> \<open>py_title\<close>: \<open>str.title\<close>;
  \<^item> \<open>py_strftime\<close>: \<open>pd.to_datetime(t).strftime("%d/%m %H:%M")\<close> on a UTC timestamp;
  \<^item> \<open>py_kickoff\<close>: conversion to \<open>America/Sao_Paulo\<close> followed by the same format.
\<close>

record pylib =
  py_nfkd :: "pystr \<Rightarrow> pystr"
  py_combining :: "codepoint \<Rightarrow> nat"
  py_lower :: "pystr \<Rightarrow> pystr"
  re_word :: "codepoint \<Rightarrow> bool"
  py_title :: "pystr \<Rightarrow> pystr"
  py_strftime :: "int \<Rightarrow> pystr"
  py_kickoff :: "int \<Rightarrow> pystr"

text \<open>The character class \<open>[a-z0-9]\<close>.\<close>

definition is_az09 :: "codepoint \<Rightarrow> bool" where
  "is_az09 c = ((97 \<le> c \<and> c \<le> 122) \<or> (48 \<le> c \<and> c \<le> 57))"

text \<open>
  Python's whitespace (\<open>\s\<close> on \<open>str\<close> patterns and the characters removed by
  \<open>str.strip()\<close>): the code points for which \<open>str.isspace\<close> holds.
\<close>

definition is_space :: "codepoint \<Rightarrow> bool" where
  "is_space c = ((9 \<le> c \<and> c \<le> 13) \<or> (28 \<le> c \<and> c \<le> 32) \<or> c = 133 \<or> c = 160
     \<or> c = 5760 \<or> (8192 \<le> c \<and> c \<le> 8202) \<or> c = 8232 \<or> c = 8233 \<or> c = 8239
     \<or> c = 8287 \<or> c = 12288)"

text \<open>
  \<open>re.sub(r"C+", " ", text)\<close> for a character class \<open>C\<close>: every maximal run of characters
  of the class becomes one space. The flag says that the previous character belonged to a
  run that has already been replaced.
\<close>

fun sub_class :: "(codepoint \<Rightarrow> bool) \<Rightarrow> bool \<Rightarrow> pystr \<Rightarrow> pystr" where
  "sub_class C in_run [] = []"
| "sub_class C in_run (c # cs) =
     (if C c then (if in_run then sub_class C True cs else 32 # sub_class C True cs)
      else c # sub_class C False cs)"

text \<open>\<open>str.strip()\<close>: leading and trailing whitespace removed.\<close>

definition strip :: "pystr \<Rightarrow> pystr" where
  "strip s = rev (dropWhile is_space (rev (dropWhile is_space s)))"

text \<open>
  The alternatives of the pattern \<open>\b(fc|cf|ac|club|the)\b\<close>, in the order in which the
  regular-expression engine tries them.
\<close>

definition tokens :: "pystr list" where
  "tokens = [str ''fc'', str ''cf'', str ''ac'', str ''club'', str ''the'']"

text \<open>
  \<open>\b\<close> holds at a position when exactly one of the character before it and the character
  after it is a word character; outside the string there is no word character.
  \<open>prev\<close> says whether the character before the position is a word character.
\<close>

definition at_boundary :: "(codepoint \<Rightarrow> bool) \<Rightarrow> bool \<Rightarrow> pystr \<Rightarrow> bool" where
  "at_boundary w prev rest = (prev \<noteq> (case rest of [] \<Rightarrow> False | c # _ \<Rightarrow> w c))"

text \<open>
  The first alternative that is a prefix of the text and is followed by a word boundary;
  the result is the length of the match.
\<close>

fun match_alt :: "(codepoint \<Rightarrow> bool) \<Rightarrow> pystr list \<Rightarrow> pystr \<Rightarrow> nat option" where
  "match_alt w [] text = None"
| "match_alt w (t # ts) text =
     (if take (length t) text = t \<and> at_boundary w (w (last t)) (drop (length t) text)
      then Some (length t) else match_alt w ts text)"

definition match_token :: "(codepoint \<Rightarrow> bool) \<Rightarrow> bool \<Rightarrow> pystr \<Rightarrow> nat option" where
  "match_token w prev text =
     (if at_boundary w prev text then match_alt w tokens text else None)"

lemma match_alt_tokens_pos: "match_alt w tokens text = Some n \<Longrightarrow> 0 < n"
  by (simp add: tokens_def str_def split: if_splits)

lemma match_token_pos: "match_token w prev text = Some n \<Longrightarrow> 0 < n"
  by (auto simp: match_token_def split: if_splits dest: match_alt_tokens_pos)

text \<open>
  \<open>re.sub(r"\b(fc|cf|ac|club|the)\b", repl, text)\<close>: a scan from the left; at a match the
  replacement is emitted and the scan resumes after the match, otherwise the character is
  copied. The application calls it with the replacement \<open>" "\<close>.
\<close>

function sub_tokens :: "(codepoint \<Rightarrow> bool) \<Rightarrow> pystr \<Rightarrow> bool \<Rightarrow> pystr \<Rightarrow> pystr" where
  "sub_tokens w repl prev [] = []"
| "sub_tokens w repl prev (c # cs) =
     (case match_token w prev (c # cs) of
        Some n \<Rightarrow> repl @ sub_tokens w repl (w ((c # cs) ! (n - 1))) (drop n (c # cs))
      | None \<Rightarrow> c # sub_tokens w repl (w c) cs)"
  by pat_completeness auto
termination
  by (relation "measure (\<lambda>(w, repl, prev, text). length text)")
     (auto dest: match_token_pos)

text \<open>The function \<open>_normalize_team_name\<close> of \<open>app/streamlit_app.py\<close>.\<close>

definition normalize_team_name :: "pylib \<Rightarrow> pystr option \<Rightarrow> pystr" where
  "normalize_team_name L name =
     (case name of
        None \<Rightarrow> []
      | Some s \<Rightarrow>
          if s = [] then []
          else
            let text = py_nfkd L s;
                text = filter (\<lambda>ch. py_combining L ch = 0) text;
                text = py_lower L text;
                text = sub_tokens (re_word L) [32] False text;
                text = sub_class (\<lambda>c. \<not> is_az09 c) False text
            in strip (sub_class is_space False text))"

subsection \<open>The library on ASCII text\<close>

text \<open>
  On ASCII text the library functions are elementary: NFKD changes nothing, no character is
  a combining mark, \<open>lower\<close> maps \<open>A-Z\<close> to \<open>a-z\<close>, and \<open>\w\<close> is \<open>[A-Za-z0-9_]\<close>.
\<close>

definition is_ascii :: "pystr \<Rightarrow> bool" where
  "is_ascii s = list_all (\<lambda>c. c < 128) s"

definition ascii_upper_letter :: "codepoint \<Rightarrow> bool" where
  "ascii_upper_letter c = (65 \<le> c \<and> c \<le> 90)"

definition ascii_lower_letter :: "codepoint \<Rightarrow> bool" where
  "ascii_lower_letter c = (97 \<le> c \<and> c \<le> 122)"

definition ascii_lower :: "codepoint \<Rightarrow> codepoint" where
  "ascii_lower c = (if ascii_upper_letter c then c + 32 else c)"

definition ascii_upper :: "codepoint \<Rightarrow> codepoint" where
  "ascii_upper c = (if ascii_lower_letter c then c - 32 else c)"

definition ascii_word :: "codepoint \<Rightarrow> bool" where
  "ascii_word c = (ascii_upper_letter c \<or> is_az09 c \<or> c = 95)"

text \<open>
  \<open>str.title\<close> on ASCII text: a letter that follows a letter is lowered, any other letter
  is raised.
\<close>

fun ascii_title :: "bool \<Rightarrow> pystr \<Rightarrow> pystr" where
  "ascii_title prev_cased [] = []"
| "ascii_title prev_cased (c # cs) =
     (if ascii_upper_letter c \<or> ascii_lower_letter c
      then (if prev_cased then ascii_lower c else ascii_upper c) # ascii_title True cs
      else c # ascii_title False cs)"

definition ascii_conformant :: "pylib \<Rightarrow> bool" where
  "ascii_conformant L =
     ((\<forall>s. is_ascii s \<longrightarrow> py_nfkd L s = s)
      \<and> (\<forall>c. c < 128 \<longrightarrow> py_combining L c = 0)
      \<and> (\<forall>s. is_ascii s \<longrightarrow> py_lower L s = map ascii_lower s)
      \<and> (\<forall>c. c < 128 \<longrightarrow> re_word L c = ascii_word c)
      \<and> (\<forall>s. is_ascii s \<longrightarrow> py_title L s = ascii_title False s))"

text \<open>
  An instance of the library for evaluating the model on ASCII inputs. Its text functions
  are the ASCII ones; its two time formats print a fixed text, which no statement below
  depends on.
\<close>

definition ascii_lib :: pylib where
  "ascii_lib =
     \<lparr> py_nfkd = (\<lambda>s. s),
       py_combining = (\<lambda>c. 0),
       py_lower = map ascii_lower,
       re_word = ascii_word,
       py_title = ascii_title False,
       py_strftime = (\<lambda>t. str ''dd/mm HH:MM''),
       py_kickoff = (\<lambda>t. str ''dd/mm HH:MM'') \<rparr>"

subsection \<open>The normalizer as the specification words it\<close>

text \<open>
  The specification's pipeline: decompose and strip combining marks, lowercase, remove the
  whole-word tokens, collapse every run of non-alphanumeric characters to one space, trim.
  Removing a token deletes it; trimming removes the spaces at both ends.
\<close>

definition strip_marks :: "pylib \<Rightarrow> pystr \<Rightarrow> pystr" where
  "strip_marks L s = filter (\<lambda>ch. py_combining L ch = 0) (py_nfkd L s)"

definition remove_tokens :: "pylib \<Rightarrow> pystr \<Rightarrow> pystr" where
  "remove_tokens L s = sub_tokens (re_word L) [] False s"

definition collapse_non_alnum :: "pystr \<Rightarrow> pystr" where
  "collapse_non_alnum s = sub_class (\<lambda>c. \<not> is_az09 c) False s"

definition trim :: "pystr \<Rightarrow> pystr" where
  "trim s = rev (dropWhile (\<lambda>c. c = 32) (rev (dropWhile (\<lambda>c. c = 32) s)))"

definition spec_normalize :: "pylib \<Rightarrow> pystr option \<Rightarrow> pystr" where
  "spec_normalize L name =
     (case name of
        None \<Rightarrow> []
      | Some s \<Rightarrow>
          if s = [] then []
          else trim (collapse_non_alnum (remove_tokens L (py_lower L (strip_marks L s)))))"

text \<open>Words joined by exactly one space.\<close>

fun join_space :: "pystr list \<Rightarrow> pystr" where
  "join_space [] = []"
| "join_space [w] = w"
| "join_space (w # ws) = w @ 32 # join_space ws"

subsection \<open>Canonical keys\<close>

text \<open>
  A key is canonical when it consists of characters of \<open>[a-z0-9]\<close> and spaces, has no two
  adjacent spaces and neither starts nor ends with a space.
\<close>

definition key_char :: "codepoint \<Rightarrow> bool" where
  "key_char c = (is_az09 c \<or> c = 32)"

definition adj_ok :: "codepoint \<Rightarrow> codepoint \<Rightarrow> bool" where
  "adj_ok a b = (a \<noteq> 32 \<or> b \<noteq> 32)"

definition single_spaced :: "pystr \<Rightarrow> bool" where
  "single_spaced s = successively adj_ok s"

definition canonical_key :: "pystr \<Rightarrow> bool" where
  "canonical_key s =
     (list_all key_char s \<and> single_spaced s \<and> (s \<noteq> [] \<longrightarrow> hd s \<noteq> 32 \<and> last s \<noteq> 32))"

definition good_words :: "pystr list \<Rightarrow> bool" where
  "good_words ws = list_all (\<lambda>w. w \<noteq> [] \<and> list_all is_az09 w) ws"

definition key_of :: "pystr \<Rightarrow> pystr" where
  "key_of s = trim (sub_class (\<lambda>c. \<not> is_az09 c) False s)"

section \<open>The odds provider: \<open>footballdata/extract/odds_api.py\<close>\<close>

text \<open>
  The exceptions that leave the module: \<open>OddsAPIError\<close> with its message,
  \<open>OddsAPIHTTPError\<close> with its message and its \<open>status_code\<close>, and the decoding error that
  \<open>resp.json()\<close> raises on a successful response whose body is not JSON.
\<close>

datatype exn =
    OddsAPIError pystr
  | OddsAPIHTTPError pystr "int option"
  | JSONDecodeError



























definition exn_message :: "exn \<Rightarrow> pystr" where
  "exn_message e =
     (case e of OddsAPIError m \<Rightarrow> m | OddsAPIHTTPError m st \<Rightarrow> m | JSONDecodeError \<Rightarrow> [])"







section \<open>Fixture selection: \<open>get_upcoming_cl_matches\<close>\<close>

text \<open>
  A row of the frame that \<open>pd.json_normalize\<close> builds from the scheduled matches, with the
  columns the function uses. An absent value (\<open>None\<close>, \<open>NaN\<close>) is \<open>None\<close>; \<open>utcDate\<close> is the
  kickoff as \<open>pd.to_datetime\<close> parsed it, \<open>None\<close> for \<open>NaT\<close>.
\<close>

record match =
  matchday :: "int option"
  utcDate :: "int option"
  home_team_id :: "int option"
  home_team :: "pystr option"
  away_team_id :: "int option"
  away_team :: "pystr option"
  stage :: "pystr option"

text \<open>A row of the returned frame: the match with its local kickoff text.\<close>

record fixture = match +
  kickoff_local :: "pystr option"

text \<open>
  The order of \<open>sort_values("utcDate")\<close>: ascending, \<open>NaT\<close> last.
\<close>

definition date_le :: "int option \<Rightarrow> int option \<Rightarrow> bool" where
  "date_le a b =
     (case a of
        None \<Rightarrow> b = None
      | Some x \<Rightarrow> (case b of None \<Rightarrow> True | Some y \<Rightarrow> x \<le> y))"

definition kickoff_le :: "match \<Rightarrow> match \<Rightarrow> bool" where
  "kickoff_le a b = date_le (utcDate a) (utcDate b)"

text \<open>
  \<open>sort_values\<close> sorts with an algorithm that is not stable, so the order of rows with equal
  kickoff is not determined by the source. The sort is a parameter \<open>srt\<close> of the model; what
  is known of it is that it permutes the rows and leaves them in order.
\<close>

definition is_sort_values :: "(match list \<Rightarrow> match list) \<Rightarrow> bool" where
  "is_sort_values srt = (\<forall>xs. mset (srt xs) = mset xs \<and> sorted_wrt kickoff_le (srt xs))"

text \<open>One instance of the sort: insertion into a sorted list.\<close>

fun insert_by_kickoff :: "match \<Rightarrow> match list \<Rightarrow> match list" where
  "insert_by_kickoff a [] = [a]"
| "insert_by_kickoff a (b # bs) =
     (if kickoff_le a b then a # b # bs else b # insert_by_kickoff a bs)"

definition insertion_sort_values :: "match list \<Rightarrow> match list" where
  "insertion_sort_values xs = foldr insert_by_kickoff xs []"

definition has_teams :: "match \<Rightarrow> bool" where
  "has_teams m = (home_team m \<noteq> None \<and> away_team m \<noteq> None)"

text \<open>\<open>Series.min()\<close> of a non-empty series of numbers.\<close>

fun series_min :: "int list \<Rightarrow> int" where
  "series_min [] = 0"
| "series_min (x # xs) = fold min xs x"

text \<open>
  The rows that the function selects (lines 69 to 80): \<open>target\<close> after the final sort.
\<close>

definition select_target :: "(match list \<Rightarrow> match list) \<Rightarrow> match list \<Rightarrow> match list" where
  "select_target srt df =
     (let df_valid = filter has_teams df;
          target =
            (if df_valid = [] then take 20 (srt df)
             else
               let valid_matchdays = List.map_filter matchday df_valid
               in if valid_matchdays \<noteq> []
                  then (let next_matchday = series_min valid_matchdays
                        in filter (\<lambda>m. matchday m = Some next_matchday) df_valid)
                  else take 20 (srt df_valid))
      in srt target)"

definition with_kickoff_local :: "pylib \<Rightarrow> match \<Rightarrow> fixture" where
  "with_kickoff_local L m =
     match.extend m (fixture.fields (map_option (py_kickoff L) (utcDate m)))"

text \<open>
  \<open>get_upcoming_cl_matches\<close> on the list of matches of a successful response; an empty list
  gives the empty frame.
\<close>

definition get_upcoming_cl_matches ::
  "pylib \<Rightarrow> (match list \<Rightarrow> match list) \<Rightarrow> match list \<Rightarrow> fixture list" where
  "get_upcoming_cl_matches L srt matches =
     (if matches = [] then [] else map (with_kickoff_local L) (select_target srt matches))"

text \<open>
  \<open>out\<close> holds the \<open>n\<close> earliest rows of \<open>xs\<close>: it has \<open>n\<close> rows, or all of them when there
  are fewer, and no row left out is earlier than a row of \<open>out\<close>.
\<close>

definition earliest :: "nat \<Rightarrow> match list \<Rightarrow> match list \<Rightarrow> bool" where
  "earliest n out xs =
     (length out = min n (length xs)
      \<and> (\<exists>rest. mset xs = mset out + rest \<and> (\<forall>a\<in>set out. \<forall>b\<in>#rest. kickoff_le a b)))"

text \<open>A match with the given matchday, kickoff and team names, for concrete evaluations.\<close>

definition sample_match ::
  "int option \<Rightarrow> int option \<Rightarrow> pystr option \<Rightarrow> pystr option \<Rightarrow> match" where
  "sample_match md t h a =
     \<lparr> matchday = md, utcDate = t, home_team_id = None, home_team = h,
       away_team_id = None, away_team = a, stage = None \<rparr>"

section \<open>Odds reconciliation: \<open>build_moneyline_summary\<close> and \<open>build_totals_table\<close>\<close>

text \<open>
  A row of the odds frame that \<open>fetch_champions_league_odds\<close> returns, with the columns the
  application reads. An absent value is \<open>None\<close>. Prices and goal lines are floating-point
  numbers in the source and real numbers here; timestamps are integers.
\<close>

record quote =
  event_id :: "pystr option"
  commence_time :: "int option"
  odds_home_team :: "pystr option"
  odds_away_team :: "pystr option"
  bookmaker_key :: "pystr option"
  bookmaker_last_update :: "int option"
  market_key :: "pystr option"
  outcome_name :: "pystr option"
  outcome_price :: "real option"
  outcome_point :: "real option"

text \<open>
  A row of \<open>merged\<close>: the columns of the odds row, the two join keys, and the columns of
  \<open>fixtures_subset\<close>.
\<close>

record merged_row =
  mq :: quote
  home_norm :: pystr
  away_norm :: pystr
  fx_matchday :: "int option"
  fx_stage :: "pystr option"
  fx_kickoff_local :: "pystr option"
  fixture_home_team :: "pystr option"
  fixture_away_team :: "pystr option"

text \<open>The frames after the two assignments of \<open>home_norm\<close> and \<open>away_norm\<close>.\<close>

definition fixtures_with_keys :: "pylib \<Rightarrow> fixture list \<Rightarrow> (fixture \<times> pystr \<times> pystr) list" where
  "fixtures_with_keys L fixtures =
     map (\<lambda>f. (f, normalize_team_name L (home_team f), normalize_team_name L (away_team f)))
       fixtures"

definition odds_with_keys :: "pylib \<Rightarrow> quote list \<Rightarrow> (quote \<times> pystr \<times> pystr) list" where
  "odds_with_keys L odds =
     map (\<lambda>q. (q, normalize_team_name L (odds_home_team q),
                  normalize_team_name L (odds_away_team q)))
       odds"

definition in_market :: "string \<Rightarrow> quote list \<Rightarrow> quote list" where
  "in_market mk odds = filter (\<lambda>q. market_key q = Some (str mk)) odds"

text \<open>
  \<open>odds.merge(fixtures_subset, on=["home_norm", "away_norm"], how="inner")\<close>: for every odds
  row in order, the fixture rows with the same two keys in order.
\<close>

definition merge_inner ::
  "(quote \<times> pystr \<times> pystr) list \<Rightarrow> (fixture \<times> pystr \<times> pystr) list \<Rightarrow> merged_row list" where
  "merge_inner odds fixtures =
     concat (map (\<lambda>(q, hn, an).
       map (\<lambda>(f, fh, fa).
             \<lparr> mq = q, home_norm = hn, away_norm = an, fx_matchday = matchday f,
               fx_stage = stage f, fx_kickoff_local = kickoff_local f,
               fixture_home_team = home_team f, fixture_away_team = away_team f \<rparr>)
         (filter (\<lambda>(f, fh, fa). fh = hn \<and> fa = an) fixtures)) odds)"

text \<open>The rows of \<open>merged\<close> for a market, or nothing when the filtered odds are empty.\<close>

definition merged_rows :: "pylib \<Rightarrow> string \<Rightarrow> fixture list \<Rightarrow> quote list \<Rightarrow> merged_row list" where
  "merged_rows L mk fixtures odds =
     merge_inner (odds_with_keys L (in_market mk odds)) (fixtures_with_keys L fixtures)"

datatype label = Mandante | Empate | Visitante

definition draw_synonyms :: "pystr list" where
  "draw_synonyms = [str ''draw'', str ''empate'']"

text \<open>The local function \<open>_map_outcome\<close>.\<close>

definition map_outcome :: "pylib \<Rightarrow> merged_row \<Rightarrow> label option" where
  "map_outcome L row =
     (let outcome_norm = normalize_team_name L (outcome_name (mq row))
      in if outcome_norm = home_norm row then Some Mandante
         else if outcome_norm = away_norm row then Some Visitante
         else if outcome_norm \<in> set draw_synonyms then Some Empate
         else None)"

text \<open>
  The median of a series, missing values already dropped: the middle value of the sorted
  series, or the mean of the two middle values; \<open>None\<close> (\<open>NaN\<close>) for an empty series.
\<close>

definition median :: "real list \<Rightarrow> real option" where
  "median xs =
     (let s = sort xs; n = length s
      in if n = 0 then None
         else if odd n then Some (s ! (n div 2))
         else Some ((s ! (n div 2 - 1) + s ! (n div 2)) / 2))"

text \<open>
  One entry of \<open>groupby(...)["outcome_price"].median()\<close>: the median of the prices of the
  rows of a group. It is \<open>None\<close> when the group has no row (the entry is absent) and when
  none of its rows has a price.
\<close>

definition group_median :: "('r \<Rightarrow> bool) \<Rightarrow> ('r \<Rightarrow> real option) \<Rightarrow> 'r list \<Rightarrow> real option" where
  "group_median in_group price rows = median (List.map_filter price (filter in_group rows))"

text \<open>\<open>Series.nunique()\<close>: the number of distinct values, missing ones not counted.\<close>

definition nunique :: "'a option list \<Rightarrow> nat" where
  "nunique xs = length (remdups (List.map_filter (\<lambda>x. x) xs))"

text \<open>\<open>Series.max()\<close> of timestamps: the greatest value, \<open>None\<close> (\<open>NaT\<close>) when there is none.\<close>

definition series_max :: "int option list \<Rightarrow> int option" where
  "series_max xs =
     (case List.map_filter (\<lambda>x. x) xs of [] \<Rightarrow> None | y # ys \<Rightarrow> Some (fold max ys y))"

definition last_update_display :: "pylib \<Rightarrow> int option \<Rightarrow> pystr" where
  "last_update_display L t = (case t of None \<Rightarrow> str ''-'' | Some v \<Rightarrow> py_strftime L v)"

text \<open>A cell inside an f-string.\<close>

definition fmt :: "pystr option \<Rightarrow> pystr" where
  "fmt v = (case v of None \<Rightarrow> str ''None'' | Some s \<Rightarrow> s)"

definition partida_text :: "merged_row \<Rightarrow> pystr" where
  "partida_text row = fmt (fixture_home_team row) @ str '' x '' @ fmt (fixture_away_team row)"

text \<open>
  The columns that both tables have: \<open>Rodada\<close>, \<open>Fase\<close>, \<open>Data (BR)\<close>, \<open>Partida\<close>,
  \<open>Casas consideradas\<close>, \<open>Atualizado (UTC)\<close>; then the columns of the moneyline row.
\<close>

record summary_base =
  rodada :: "int option"
  fase :: "pystr option"
  data_br :: "pystr option"
  partida :: pystr
  casas_consideradas :: nat
  atualizado_utc :: pystr

record moneyline_row = summary_base +
  mandante :: "real option"
  empate :: "real option"
  visitante :: "real option"

text \<open>The rows of \<open>merged\<close> that keep a label, with the label.\<close>

definition labelled_rows :: "pylib \<Rightarrow> merged_row list \<Rightarrow> (merged_row \<times> label) list" where
  "labelled_rows L merged =
     List.map_filter (\<lambda>row. map_option (\<lambda>l. (row, l)) (map_outcome L row)) merged"

text \<open>
  The single row of the summary (lines 189 to 206), from the labelled rows of \<open>merged\<close>.
\<close>

definition moneyline_row_of :: "pylib \<Rightarrow> (merged_row \<times> label) list \<Rightarrow> moneyline_row" where
  "moneyline_row_of L merged =
     (let grouped = (\<lambda>l. group_median (\<lambda>r. snd r = l) (\<lambda>r. outcome_price (mq (fst r))) merged);
          bookmaker_count = nunique (map (\<lambda>r. bookmaker_key (mq (fst r))) merged);
          last_update = series_max (map (\<lambda>r. bookmaker_last_update (mq (fst r))) merged);
          match_info = fst (hd merged)
      in \<lparr> rodada = fx_matchday match_info,
           fase = fx_stage match_info,
           data_br = fx_kickoff_local match_info,
           partida = partida_text match_info,
           casas_consideradas = bookmaker_count,
           atualizado_utc = last_update_display L last_update,
           mandante = grouped Mandante,
           empate = grouped Empate,
           visitante = grouped Visitante \<rparr>)"

text \<open>
  \<open>build_moneyline_summary\<close>. An empty frame is the empty list of rows. The function has no
  statement that raises on frames with these columns, so its result is a list of rows.
\<close>

definition build_moneyline_summary :: "pylib \<Rightarrow> fixture list \<Rightarrow> quote list \<Rightarrow> moneyline_row list" where
  "build_moneyline_summary L fixtures_df odds_df =
     (if fixtures_df = [] \<or> odds_df = [] then []
      else
        let fixtures = fixtures_with_keys L fixtures_df;
            odds = in_market ''h2h'' odds_df
        in if odds = [] then []
           else
             let merged = merge_inner (odds_with_keys L odds) fixtures
             in if merged = [] then []
                else
                  let merged = labelled_rows L merged
                  in if merged = [] then []
                     else [moneyline_row_of L merged])"

subsection \<open>The totals table\<close>

text \<open>The exception of \<open>pivot[[...]]\<close> when labels are missing from the columns.\<close>

datatype pyerr = KeyError "pystr list"

text \<open>
  A row of the returned frame. After the columns are renamed with \<open>title\<close>, several columns
  can carry the label \<open>Over\<close> (or \<open>Under\<close>); the selection keeps all of them, in the order
  of the columns.
\<close>

record totals_row = summary_base +
  linha_gols :: real
  over :: "real option list"
  under :: "real option list"

text \<open>\<open>groupby\<close> leaves out the rows with a missing key.\<close>

definition grouped_rows :: "merged_row list \<Rightarrow> merged_row list" where
  "grouped_rows merged =
     filter (\<lambda>r. outcome_point (mq r) \<noteq> None \<and> outcome_name (mq r) \<noteq> None) merged"

text \<open>The index and the columns of \<open>pivot\<close> after \<open>unstack\<close>: the sorted distinct keys.\<close>

definition pivot_index :: "merged_row list \<Rightarrow> real list" where
  "pivot_index merged =
     sort (remdups (List.map_filter (\<lambda>r. outcome_point (mq r)) (grouped_rows merged)))"

definition pivot_names :: "merged_row list \<Rightarrow> pystr list" where
  "pivot_names merged =
     sort (remdups (List.map_filter (\<lambda>r. outcome_name (mq r)) (grouped_rows merged)))"

definition pivot_cell :: "merged_row list \<Rightarrow> real \<Rightarrow> pystr \<Rightarrow> real option" where
  "pivot_cell merged p n =
     group_median (\<lambda>r. outcome_point (mq r) = Some p \<and> outcome_name (mq r) = Some n)
       (\<lambda>r. outcome_price (mq r)) merged"

text \<open>The columns whose label after \<open>rename(columns=lambda c: c.title())\<close> is \<open>t\<close>.\<close>

definition titled :: "pylib \<Rightarrow> merged_row list \<Rightarrow> pystr \<Rightarrow> pystr list" where
  "titled L merged t = filter (\<lambda>n. py_title L n = t) (pivot_names merged)"

definition at_point :: "real \<Rightarrow> merged_row list \<Rightarrow> merged_row list" where
  "at_point p merged = filter (\<lambda>r. outcome_point (mq r) = Some p) merged"

definition totals_row_at :: "pylib \<Rightarrow> merged_row list \<Rightarrow> real \<Rightarrow> totals_row" where
  "totals_row_at L merged p =
     (let match_row = hd merged
      in \<lparr> rodada = fx_matchday match_row,
           fase = fx_stage match_row,
           data_br = fx_kickoff_local match_row,
           partida = partida_text match_row,
           casas_consideradas = nunique (map (\<lambda>r. bookmaker_key (mq r)) (at_point p merged)),
           atualizado_utc =
             last_update_display L
               (series_max (map (\<lambda>r. bookmaker_last_update (mq r)) (at_point p merged))),
           linha_gols = p,
           over = map (pivot_cell merged p) (titled L merged (str ''Over'')),
           under = map (pivot_cell merged p) (titled L merged (str ''Under'')) \<rparr>)"

text \<open>
  The part of \<open>build_totals_table\<close> after the join (lines 249 to 286): an empty pivot gives
  the empty frame; selecting the columns raises \<open>KeyError\<close> when no column is labelled
  \<open>Over\<close> or none is labelled \<open>Under\<close>; the rows are sorted by goal line.
\<close>

definition totals_of_merged :: "pylib \<Rightarrow> merged_row list \<Rightarrow> pyerr + totals_row list" where
  "totals_of_merged L merged =
     (if pivot_index merged = [] then Inr []
      else
        let missing = filter (\<lambda>c. titled L merged c = []) [str ''Over'', str ''Under'']
        in if missing \<noteq> [] then Inl (KeyError missing)
           else Inr (sort_key linha_gols (map (totals_row_at L merged) (pivot_index merged))))"

definition build_totals_table ::
  "pylib \<Rightarrow> fixture list \<Rightarrow> quote list \<Rightarrow> pyerr + totals_row list" where
  "build_totals_table L fixtures_df odds_df =
     (if fixtures_df = [] \<or> odds_df = [] then Inr []
      else
        let fixtures = fixtures_with_keys L fixtures_df;
            odds = in_market ''totals'' odds_df
        in if odds = [] then Inr []
           else
             let merged = merge_inner (odds_with_keys L odds) fixtures
             in if merged = [] then Inr []
                else totals_of_merged L merged)"

subsection \<open>The debug view of the matching\<close>

text \<open>A row of \<open>_build_odds_overview\<close>: one event of the odds frame.\<close>

record overview_row =
  ov_event_id :: pystr
  ov_commence_time :: "int option"
  ov_home_team :: "pystr option"
  ov_away_team :: "pystr option"
  ov_markets :: pystr
  ov_bookmakers :: nat
  ov_home_norm :: pystr
  ov_away_norm :: pystr

text \<open>The aggregation \<open>first\<close>: the first value of the group that is not missing.\<close>

definition first_present :: "'a option list \<Rightarrow> 'a option" where
  "first_present xs = (case List.map_filter (\<lambda>x. x) xs of [] \<Rightarrow> None | y # ys \<Rightarrow> Some y)"

text \<open>\<open>", ".join(names)\<close>.\<close>

fun join_with :: "pystr \<Rightarrow> pystr list \<Rightarrow> pystr" where
  "join_with sep [] = []"
| "join_with sep [w] = w"
| "join_with sep (w # ws) = w @ sep @ join_with sep ws"

definition overview_of :: "pylib \<Rightarrow> quote list \<Rightarrow> pystr \<Rightarrow> overview_row" where
  "overview_of L odds e =
     (let grp = filter (\<lambda>q. event_id q = Some e) odds;
          h = first_present (map odds_home_team grp);
          a = first_present (map odds_away_team grp)
      in \<lparr> ov_event_id = e,
           ov_commence_time = series_max (map commence_time grp),
           ov_home_team = h,
           ov_away_team = a,
           ov_markets = join_with (str '', '') (sort (remdups (List.map_filter market_key grp))),
           ov_bookmakers = nunique (map bookmaker_key grp),
           ov_home_norm = normalize_team_name L h,
           ov_away_norm = normalize_team_name L a \<rparr>)"




subsection \<open>Sample rows\<close>

text \<open>Rows for evaluating the reconcilers on concrete frames.\<close>

definition sample_fixture :: "string \<Rightarrow> string \<Rightarrow> fixture" where
  "sample_fixture h a =
     \<lparr> matchday = Some 1, utcDate = Some 0, home_team_id = None, home_team = Some (str h),
       away_team_id = None, away_team = Some (str a), stage = Some (str ''LEAGUE_STAGE''),
       kickoff_local = Some (str ''01/01 00:00'') \<rparr>"

definition sample_quote ::
  "string \<Rightarrow> string \<Rightarrow> string \<Rightarrow> string \<Rightarrow> string \<Rightarrow> real \<Rightarrow> real option \<Rightarrow> int \<Rightarrow> quote" where
  "sample_quote bk mk h a name price point upd =
     \<lparr> event_id = Some (str ''e1''), commence_time = Some 0, odds_home_team = Some (str h),
       odds_away_team = Some (str a), bookmaker_key = Some (str bk),
       bookmaker_last_update = Some upd, market_key = Some (str mk),
       outcome_name = Some (str name), outcome_price = Some price, outcome_point = point \<rparr>"

subsection \<open>The reconciliation as the specification words it\<close>

text \<open>
  A quote joins a fixture when its two normalized team names are the fixture's, in the same
  order; it is swapped when they are the fixture's in the other order.
\<close>

definition exact_match :: "pylib \<Rightarrow> fixture \<Rightarrow> quote \<Rightarrow> bool" where
  "exact_match L f q =
     (normalize_team_name L (odds_home_team q) = normalize_team_name L (home_team f)
      \<and> normalize_team_name L (odds_away_team q) = normalize_team_name L (away_team f))"


text \<open>The quotes of a market with the fixtures they join.\<close>

definition joined :: "pylib \<Rightarrow> string \<Rightarrow> fixture list \<Rightarrow> quote list \<Rightarrow> (quote \<times> fixture) list" where
  "joined L mk fixtures odds =
     concat (map (\<lambda>q. map (\<lambda>f. (q, f)) (filter (\<lambda>f. exact_match L f q) fixtures))
               (in_market mk odds))"

text \<open>
  The label of a joined quote: its normalized outcome name compared with the fixture's home
  key, then with its away key, then with the draw synonyms.
\<close>

definition outcome_label :: "pylib \<Rightarrow> quote \<Rightarrow> fixture \<Rightarrow> label option" where
  "outcome_label L q f =
     (let k = normalize_team_name L (outcome_name q)
      in if k = normalize_team_name L (home_team f) then Some Mandante
         else if k = normalize_team_name L (away_team f) then Some Visitante
         else if k = str ''draw'' \<or> k = str ''empate'' then Some Empate
         else None)"

text \<open>The joined moneyline quotes that have a label, with their fixture and label.\<close>

definition retained :: "pylib \<Rightarrow> fixture list \<Rightarrow> quote list \<Rightarrow> (quote \<times> fixture \<times> label) list" where
  "retained L fixtures odds =
     List.map_filter (\<lambda>(q, f). map_option (\<lambda>l. (q, f, l)) (outcome_label L q f))
       (joined L ''h2h'' fixtures odds)"

definition prices_of :: "label \<Rightarrow> (quote \<times> fixture \<times> label) list \<Rightarrow> real list" where
  "prices_of l rs = List.map_filter (\<lambda>(q, f, l'). if l' = l then outcome_price q else None) rs"

definition bookmakers_of :: "(quote \<times> 'x) list \<Rightarrow> pystr set" where
  "bookmakers_of rs = {k. \<exists>r\<in>set rs. bookmaker_key (fst r) = Some k}"

definition updates_of :: "(quote \<times> 'x) list \<Rightarrow> int set" where
  "updates_of rs = {t. \<exists>r\<in>set rs. bookmaker_last_update (fst r) = Some t}"

definition freshest :: "pylib \<Rightarrow> int set \<Rightarrow> pystr" where
  "freshest L ts = (if ts = {} then str ''-'' else py_strftime L (Max ts))"

text \<open>
  \<open>m\<close> is a median of \<open>xs\<close>: at least half of the values are at most \<open>m\<close>, at least half
  are at least \<open>m\<close>, and \<open>m\<close> is one of the values when their number is odd.
\<close>

definition is_median :: "real list \<Rightarrow> real \<Rightarrow> bool" where
  "is_median xs m =
     (xs \<noteq> []
      \<and> length xs \<le> 2 * length (filter (\<lambda>x. x \<le> m) xs)
      \<and> length xs \<le> 2 * length (filter (\<lambda>x. m \<le> x) xs)
      \<and> (odd (length xs) \<longrightarrow> m \<in> set xs))"

text \<open>The row of \<open>merged\<close> that a quote and a fixture with the same keys produce.\<close>

definition row_of :: "pylib \<Rightarrow> quote \<Rightarrow> fixture \<Rightarrow> merged_row" where
  "row_of L q f =
     \<lparr> mq = q,
       home_norm = normalize_team_name L (odds_home_team q),
       away_norm = normalize_team_name L (odds_away_team q),
       fx_matchday = matchday f, fx_stage = stage f, fx_kickoff_local = kickoff_local f,
       fixture_home_team = home_team f, fixture_away_team = away_team f \<rparr>"



section \<open>Properties of the normalizer\<close>

lemma az09_not_space: "is_az09 c \<Longrightarrow> \<not> is_space c"
  by (auto simp: is_az09_def is_space_def)

lemma az09_not_32: "is_az09 c \<Longrightarrow> c \<noteq> 32"
  by (auto simp: is_az09_def)

lemma space_32: "is_space 32"
  by (simp add: is_space_def)

lemma key_char_space: "key_char c \<Longrightarrow> is_space c = (c = 32)"
  by (auto simp: key_char_def space_32 dest: az09_not_space)

lemma sub_class_chars: "list_all key_char (sub_class (\<lambda>c. \<not> is_az09 c) fl x)"
  by (induction x arbitrary: fl) (auto simp: key_char_def)

lemma sub_class_hd:
  "fl \<Longrightarrow> sub_class (\<lambda>c. \<not> is_az09 c) fl x = [] \<or> hd (sub_class (\<lambda>c. \<not> is_az09 c) fl x) \<noteq> 32"
  by (induction x) (auto dest: az09_not_32)

lemma sub_class_single: "single_spaced (sub_class (\<lambda>c. \<not> is_az09 c) fl x)"
  unfolding single_spaced_def
proof (induction x arbitrary: fl)
  case Nil show ?case by simp
next
  case (Cons c cs)
  show ?case using Cons[of True] Cons[of False] sub_class_hd[of True cs]
    by (auto simp: successively_Cons adj_ok_def dest: az09_not_32)
qed

lemma sub_space_id:
  "list_all key_char t \<Longrightarrow> single_spaced t \<Longrightarrow> (fl \<longrightarrow> t = [] \<or> hd t \<noteq> 32)
   \<Longrightarrow> sub_class is_space fl t = t"
  unfolding single_spaced_def
proof (induction t arbitrary: fl)
  case Nil show ?case by simp
next
  case (Cons c cs)
  then show ?case
    by (auto simp: successively_Cons key_char_space adj_ok_def)
qed

lemma strip_eq_trim: "list_all key_char t \<Longrightarrow> strip t = trim t"
proof -
  assume a: "list_all key_char t"
  have 1: "dropWhile is_space t = dropWhile (\<lambda>c. c = 32) t"
    using a by (intro dropWhile_cong) (auto simp: list_all_iff key_char_space)
  have "\<forall>c\<in>set (rev (dropWhile (\<lambda>c. c = 32) t)). key_char c"
    using a by (auto simp: list_all_iff dest: set_dropWhileD)
  then have 2: "dropWhile is_space (rev (dropWhile (\<lambda>c. c = 32) t))
      = dropWhile (\<lambda>c. c = 32) (rev (dropWhile (\<lambda>c. c = 32) t))"
    by (intro dropWhile_cong) (auto simp: key_char_space)
  show ?thesis by (simp add: strip_def trim_def 1 2)
qed

lemma single_spaced_dropWhile: "single_spaced s \<Longrightarrow> single_spaced (dropWhile Q s)"
proof -
  assume "single_spaced s"
  then have "single_spaced (takeWhile Q s @ dropWhile Q s)" by simp
  then show ?thesis unfolding single_spaced_def successively_append_iff by simp
qed

lemma single_spaced_rev: "single_spaced (rev s) = single_spaced s"
proof -
  have "successively (\<lambda>x y. adj_ok y x) s = successively adj_ok s"
    by (rule successively_cong) (auto simp: adj_ok_def)
  then show ?thesis by (simp add: single_spaced_def)
qed

lemma trim_canonical:
  assumes "list_all key_char t" "single_spaced t"
  shows "canonical_key (trim t)"
proof -
  let ?Q = "\<lambda>c::nat. c = 32"
  let ?d = "dropWhile ?Q t"
  let ?e = "dropWhile ?Q (rev ?d)"
  have t: "trim t = rev ?e" by (simp add: trim_def)
  have "set (rev ?e) \<subseteq> set t"
    using set_dropWhileD[of _ ?Q "rev ?d"] set_dropWhileD[of _ ?Q t] by auto
  then have chars: "list_all key_char (rev ?e)"
    using assms(1) unfolding list_all_iff by blast
  have ss: "single_spaced (rev ?e)"
    using assms(2) by (simp add: single_spaced_rev single_spaced_dropWhile)
  have ends: "hd (rev ?e) \<noteq> 32 \<and> last (rev ?e) \<noteq> 32" if ne: "?e \<noteq> []"
  proof -
    have l: "hd ?e \<noteq> 32" using hd_dropWhile[OF ne] by simp
    have dne: "?d \<noteq> []" using ne by (metis dropWhile.simps(1) rev.simps(1))
    have "rev ?d = takeWhile ?Q (rev ?d) @ ?e" by simp
    then have "last (rev ?d) = last ?e" using ne by (metis last_appendR)
    then have "last ?e = hd ?d" by (simp add: last_rev)
    moreover have "hd ?d \<noteq> 32" using hd_dropWhile[OF dne] by simp
    ultimately show ?thesis using l by (simp add: hd_rev last_rev)
  qed
  show ?thesis unfolding canonical_key_def t using chars ss ends by auto
qed

lemma canonical_words: "canonical_key s \<Longrightarrow> \<exists>ws. good_words ws \<and> s = join_space ws"
proof (induction "length s" arbitrary: s rule: less_induct)
  case less
  show ?case
  proof (cases "s = []")
    case True
    then show ?thesis by (intro exI[of _ "[]"]) (simp add: good_words_def)
  next
    case False
    define w where "w = takeWhile is_az09 s"
    define r where "r = dropWhile is_az09 s"
    have s: "s = w @ r" by (simp add: w_def r_def)
    have kc: "\<forall>c\<in>set s. key_char c" and ss: "single_spaced s"
      and h: "hd s \<noteq> 32" and l: "last s \<noteq> 32"
      using less.prems False by (auto simp: canonical_key_def list_all_iff)
    have "is_az09 (hd s)" using kc False h by (cases s) (auto simp: key_char_def)
    then have wne: "w \<noteq> []" using False unfolding w_def by (cases s) simp_all
    have wg: "list_all is_az09 w"
      using set_takeWhileD[of _ is_az09 s] unfolding list_all_iff w_def by blast
    show ?thesis
    proof (cases r)
      case Nil
      then have "s = join_space [w]" using s by simp
      moreover have "good_words [w]" using wne wg by (simp add: good_words_def)
      ultimately show ?thesis by blast
    next
      case (Cons c r')
      have "r \<noteq> []" using Cons by simp
      then have "\<not> is_az09 (hd r)" unfolding r_def by (rule hd_dropWhile)
      then have "\<not> is_az09 c" using Cons by simp
      moreover have "key_char c" using kc s Cons by simp
      ultimately have c: "c = 32" by (simp add: key_char_def)
      have s2: "s = w @ 32 # r'" using s Cons c by simp
      have r'ne: "r' \<noteq> []" using l s2 by auto
      have kr: "list_all key_char r'" using kc s2 by (simp add: list_all_iff)
      have "single_spaced (w @ 32 # r')" using ss s2 by simp
      then have sr: "single_spaced (32 # r')"
        unfolding single_spaced_def successively_append_iff by simp
      then have hr: "hd r' \<noteq> 32" and sr': "single_spaced r'" using r'ne
        by (auto simp: single_spaced_def successively_Cons adj_ok_def)
      have lr: "last r' \<noteq> 32" using l s2 r'ne by simp
      have "canonical_key r'" using kr sr' hr lr by (simp add: canonical_key_def)
      moreover have "length r' < length s" using s2 by simp
      ultimately obtain ws where ws: "good_words ws" "r' = join_space ws"
        using less.hyps by blast
      have wsne: "ws \<noteq> []" using r'ne ws by auto
      then have "join_space (w # ws) = w @ 32 # join_space ws" by (cases ws) auto
      then have "s = join_space (w # ws)" using s2 ws by simp
      moreover have "good_words (w # ws)" using ws wne wg by (simp add: good_words_def)
      ultimately show ?thesis by blast
    qed
  qed
qed

lemma normalize_tail:
  "strip (sub_class is_space False (sub_class (\<lambda>c. \<not> is_az09 c) False x))
     = trim (sub_class (\<lambda>c. \<not> is_az09 c) False x)"
  by (simp add: sub_space_id sub_class_chars sub_class_single strip_eq_trim)

lemma normalize_canonical: "canonical_key (normalize_team_name L name)"
proof (cases "name = None \<or> name = Some []")
  case True
  then show ?thesis
    by (auto simp: normalize_team_name_def canonical_key_def single_spaced_def)
next
  case False
  then obtain s where s: "name = Some s" "s \<noteq> []" by auto
  show ?thesis
    unfolding s normalize_team_name_def
    by (simp add: Let_def s(2) normalize_tail trim_canonical sub_class_chars sub_class_single)
qed

lemma collapse_space_before_sep:
  "\<not> is_az09 c \<Longrightarrow>
   sub_class (\<lambda>c. \<not> is_az09 c) fl (x @ 32 # c # t) = sub_class (\<lambda>c. \<not> is_az09 c) fl (x @ c # t)"
  by (induction x arbitrary: fl) (auto simp: is_az09_def)

lemma collapse_snoc_space:
  "\<exists>e. sub_class (\<lambda>c. \<not> is_az09 c) fl (x @ [32]) = sub_class (\<lambda>c. \<not> is_az09 c) fl x @ e
       \<and> (e = [] \<or> e = [32])"
  by (induction x arbitrary: fl) (auto simp: is_az09_def)

lemma trim_snoc_space: "trim (u @ [32]) = trim u"
  by (cases "\<forall>x\<in>set u. x = 32") (auto simp: trim_def dropWhile_append dest: set_dropWhileD)

lemma key_of_snoc_space: "key_of (x @ [32]) = key_of x"
  using collapse_snoc_space[of False x] by (auto simp: key_of_def trim_snoc_space)

lemma key_of_space_absorbed:
  "t = [] \<or> \<not> is_az09 (hd t) \<Longrightarrow> key_of (p @ 32 # t) = key_of (p @ t)"
proof (cases t)
  case Nil
  then show ?thesis using key_of_snoc_space[of p] by simp
next
  case (Cons c t')
  assume "t = [] \<or> \<not> is_az09 (hd t)"
  then have "\<not> is_az09 c" using Cons by simp
  then show ?thesis unfolding Cons key_of_def by (simp add: collapse_space_before_sep)
qed

lemma match_token_shape:
  assumes "\<forall>c. is_az09 c \<longrightarrow> w c" "match_token w prev s = Some n"
  shows "s \<noteq> [] \<and> w (hd s) \<and> (drop n s = [] \<or> \<not> w (hd (drop n s)))"
proof -
  have w: "w 102" "w 99" "w 97" "w 108" "w 117" "w 98" "w 116" "w 104" "w 101"
    using assms(1) by (simp_all add: is_az09_def)
  show ?thesis
    using assms(2) w
    by (auto simp: match_token_def tokens_def str_def at_boundary_def take_Suc_conv_app_nth
        split: if_splits list.splits)
qed

lemma sub_tokens_key:
  assumes az: "\<forall>c. is_az09 c \<longrightarrow> w c"
  shows "(\<forall>t. key_of (pa @ t) = key_of (pb @ t))
          \<or> ((\<forall>t. t = [] \<or> \<not> is_az09 (hd t) \<longrightarrow> key_of (pa @ t) = key_of (pb @ t))
              \<and> (s = [] \<or> \<not> w (hd s)))
        \<Longrightarrow> key_of (pa @ sub_tokens w [32] prev s) = key_of (pb @ sub_tokens w [] prev s)"
proof (induction "length s" arbitrary: s pa pb prev rule: less_induct)
  case less
  show ?case
  proof (cases s)
    case Nil
    have "key_of (pa @ []) = key_of (pb @ [])" using less.prems by blast
    then show ?thesis using Nil by simp
  next
    case (Cons c cs)
    show ?thesis
    proof (cases "match_token w prev (c # cs)")
      case None
      have step: "\<forall>t. key_of ((pa @ [c]) @ t) = key_of ((pb @ [c]) @ t)"
      proof (cases "\<forall>t. key_of (pa @ t) = key_of (pb @ t)")
        case True
        then show ?thesis by simp
      next
        case False
        then have wk: "\<forall>t. t = [] \<or> \<not> is_az09 (hd t) \<longrightarrow> key_of (pa @ t) = key_of (pb @ t)"
          and "\<not> w c" using less.prems Cons by auto
        then have "\<not> is_az09 c" using az by blast
        then show ?thesis using wk by simp
      qed
      have "key_of ((pa @ [c]) @ sub_tokens w [32] (w c) cs)
            = key_of ((pb @ [c]) @ sub_tokens w [] (w c) cs)"
        by (rule less.hyps) (use Cons step in auto)
      then show ?thesis using None Cons by simp
    next
      case (Some n)
      have sh: "w c" "drop n (c # cs) = [] \<or> \<not> w (hd (drop n (c # cs)))"
        using match_token_shape[OF az Some] by auto
      have n: "0 < n" using Some by (rule match_token_pos)
      have strong: "\<forall>t. key_of (pa @ t) = key_of (pb @ t)"
        using less.prems Cons sh(1) by auto
      have weak: "\<forall>t. t = [] \<or> \<not> is_az09 (hd t) \<longrightarrow> key_of ((pa @ [32]) @ t) = key_of (pb @ t)"
      proof (intro allI impI)
        fix t :: pystr assume t: "t = [] \<or> \<not> is_az09 (hd t)"
        have "key_of ((pa @ [32]) @ t) = key_of (pb @ 32 # t)" using strong by simp
        also have "\<dots> = key_of (pb @ t)" using t by (rule key_of_space_absorbed)
        finally show "key_of ((pa @ [32]) @ t) = key_of (pb @ t)" .
      qed
      have "key_of ((pa @ [32]) @ sub_tokens w [32] (w ((c # cs) ! (n - 1))) (drop n (c # cs)))
            = key_of (pb @ sub_tokens w [] (w ((c # cs) ! (n - 1))) (drop n (c # cs)))"
        by (rule less.hyps) (use Cons n weak sh(2) in auto)
      then show ?thesis using Some Cons by simp
    qed
  qed
qed

lemma remove_or_blank_tokens:
  assumes "\<forall>c. is_az09 c \<longrightarrow> w c"
  shows "key_of (sub_tokens w [32] False s) = key_of (sub_tokens w [] False s)"
  using sub_tokens_key[OF assms, of "[]" "[]" s False] by simp

lemma normalize_refines:
  assumes "\<forall>c. is_az09 c \<longrightarrow> re_word L c"
  shows "normalize_team_name L name = spec_normalize L name"
proof (cases "name = None \<or> name = Some []")
  case True
  then show ?thesis by (auto simp: normalize_team_name_def spec_normalize_def)
next
  case False
  then obtain s where s: "name = Some s" "s \<noteq> []" by auto
  show ?thesis
    unfolding s normalize_team_name_def spec_normalize_def
    using remove_or_blank_tokens[OF assms]
    by (simp add: Let_def s(2) normalize_tail key_of_def remove_tokens_def collapse_non_alnum_def strip_marks_def)
qed

subsection \<open>Evaluation on ASCII text\<close>


lemmas norm_eval = normalize_team_name_def str_def tokens_def match_token_def
  at_boundary_def ascii_lower_def ascii_upper_letter_def ascii_word_def is_az09_def strip_def
  is_space_def is_ascii_def

lemma ascii_lower_lt: "c < 128 \<Longrightarrow> ascii_lower c < 128"
  by (auto simp: ascii_lower_def ascii_upper_letter_def)

lemma ascii_conformant_ascii_lib: "ascii_conformant ascii_lib"
  by (simp add: ascii_conformant_def ascii_lib_def)

lemma conformantD:
  assumes "ascii_conformant L"
  shows "is_ascii s \<Longrightarrow> py_nfkd L s = s"
    and "c < 128 \<Longrightarrow> py_combining L c = 0"
    and "is_ascii s \<Longrightarrow> py_lower L s = map ascii_lower s"
    and "c < 128 \<Longrightarrow> re_word L c = ascii_word c"
    and "is_ascii s \<Longrightarrow> py_title L s = ascii_title False s"
  using assms by (simp_all add: ascii_conformant_def)

lemma conformant_word: "ascii_conformant L \<Longrightarrow> \<forall>c. is_az09 c \<longrightarrow> re_word L c"
  by (auto simp: ascii_conformant_def ascii_word_def is_az09_def)

lemma normalize_barcelona:
  assumes "ascii_conformant L"
  shows "normalize_team_name L (Some (str ''FC Barcelona'')) = str ''barcelona''"
    and "normalize_team_name L (Some (str ''Barcelona CF'')) = str ''barcelona''"
    and "normalize_team_name L (Some (str ''barcelona'')) = str ''barcelona''"
  by (simp_all add: norm_eval conformantD[OF assms])

text \<open>
  Claim C2. On every input, absent and empty included, the normalizer returns what the
  specification's pipeline returns: NFKD decomposition with the combining marks stripped,
  lowercasing, removal of the whole-word tokens, collapse of every run of non-alphanumeric
  characters to one space, trimming. An absent or empty name gives the empty key, and
  "FC Barcelona", "Barcelona CF" and "barcelona" give the same key. The library is only
  required to behave on ASCII text as Python does.
\<close>
theorem normalize_team_name_refines_spec:
  assumes "ascii_conformant L"
  shows "normalize_team_name L name = spec_normalize L name
         \<and> normalize_team_name L None = [] \<and> normalize_team_name L (Some []) = []
         \<and> normalize_team_name L (Some (str ''FC Barcelona'')) = str ''barcelona''
         \<and> normalize_team_name L (Some (str ''Barcelona CF'')) = str ''barcelona''
         \<and> normalize_team_name L (Some (str ''barcelona'')) = str ''barcelona''"
  using normalize_refines[OF conformant_word[OF assms]] normalize_barcelona[OF assms]
  by (simp add: normalize_team_name_def)

theorem normalize_team_name_refines_spec_witness:
  "ascii_conformant ascii_lib
   \<and> normalize_team_name ascii_lib (Some (str ''The Club-AC  Milan FC'')) = str ''milan''
   \<and> spec_normalize ascii_lib (Some (str ''The Club-AC  Milan FC'')) = str ''milan''
   \<and> normalize_team_name ascii_lib (Some (str ''FC Barcelona'')) = str ''barcelona''"
proof -
  have e: "normalize_team_name ascii_lib (Some (str ''The Club-AC  Milan FC'')) = str ''milan''"
    by (simp add: norm_eval ascii_lib_def)
  show ?thesis
    using normalize_team_name_refines_spec[OF ascii_conformant_ascii_lib,
        of "Some (str ''The Club-AC  Milan FC'')"] e ascii_conformant_ascii_lib
    by simp
qed

text \<open>
  Claim C10. On every input the key is canonical: it consists of lowercase ASCII letters,
  digits and spaces, has no two adjacent spaces and no space at either end; equivalently it
  is a (possibly empty) sequence of words of \<open>[a-z0-9]+\<close> joined by exactly one space.
\<close>
theorem normalize_team_name_canonical:
  "canonical_key (normalize_team_name L name)
   \<and> (\<exists>ws. good_words ws \<and> normalize_team_name L name = join_space ws)"
  using normalize_canonical canonical_words by blast

theorem normalize_team_name_canonical_witness:
  "normalize_team_name ascii_lib (Some (str '' A.C. Milan_1899!'')) = str ''a c milan 1899''
   \<and> canonical_key (str ''a c milan 1899'')
   \<and> (\<exists>ws. ws \<noteq> [] \<and> good_words ws \<and> str ''a c milan 1899'' = join_space ws)"
proof -
  have e: "normalize_team_name ascii_lib (Some (str '' A.C. Milan_1899!'')) = str ''a c milan 1899''"
    by (simp add: norm_eval ascii_lib_def)
  have ne: "str ''a c milan 1899'' \<noteq> []" by (simp add: str_def)
  from normalize_team_name_canonical[of ascii_lib "Some (str '' A.C. Milan_1899!'')"]
  obtain ws where "canonical_key (str ''a c milan 1899'')" "good_words ws"
    "str ''a c milan 1899'' = join_space ws"
    unfolding e by blast
  moreover from this ne have "ws \<noteq> []" by auto
  ultimately show ?thesis using e by blast
qed

section \<open>Properties of the odds fetch\<close>














section \<open>Properties of the fixture selection\<close>


lemma series_min_Min:
  assumes "xs \<noteq> []"
  shows "series_min xs = Min (set xs)"
proof (cases xs)
  case Nil
  then show ?thesis using assms by simp
next
  case (Cons a list)
  have "Min (set (a # list)) = fold min list a" by (rule Min.set_eq_fold)
  then show ?thesis using Cons by simp
qed

lemma series_min_least:
  assumes "xs \<noteq> []"
  shows "series_min xs \<in> set xs" and "\<forall>x\<in>set xs. series_min xs \<le> x"
  using assms Min_in[of "set xs"] by (auto simp: series_min_Min)

lemma date_le_refl: "date_le a a"
  by (simp add: date_le_def split: option.splits)

lemma date_le_trans: "date_le a b \<Longrightarrow> date_le b c \<Longrightarrow> date_le a c"
  by (auto simp: date_le_def split: option.splits)

lemma date_le_total: "date_le a b \<or> date_le b a"
  by (auto simp: date_le_def split: option.splits)

lemma set_insert_by_kickoff: "set (insert_by_kickoff a xs) = insert a (set xs)"
  by (induction xs) auto

lemma mset_insert_by_kickoff: "mset (insert_by_kickoff a xs) = add_mset a (mset xs)"
  by (induction xs) auto

lemma sorted_insert_by_kickoff:
  "sorted_wrt kickoff_le xs \<Longrightarrow> sorted_wrt kickoff_le (insert_by_kickoff a xs)"
proof (induction xs)
  case Nil
  show ?case by simp
next
  case (Cons b bs)
  show ?case
  proof (cases "kickoff_le a b")
    case True
    then have "\<forall>x\<in>set bs. kickoff_le a x"
      using Cons.prems by (auto simp: kickoff_le_def intro: date_le_trans)
    then show ?thesis using True Cons.prems by simp
  next
    case False
    then have "kickoff_le b a" using date_le_total by (auto simp: kickoff_le_def)
    then show ?thesis using False Cons by (auto simp: set_insert_by_kickoff)
  qed
qed

lemma is_sort_values_insertion: "is_sort_values insertion_sort_values"
proof -
  have "mset (foldr insert_by_kickoff xs []) = mset xs
        \<and> sorted_wrt kickoff_le (foldr insert_by_kickoff xs [])" for xs
    by (induction xs) (auto simp: mset_insert_by_kickoff sorted_insert_by_kickoff)
  then show ?thesis by (simp add: is_sort_values_def insertion_sort_values_def)
qed

lemma earliest_take:
  assumes "sorted_wrt kickoff_le ys" "mset ys = mset xs"
  shows "earliest n (take n ys) xs"
proof -
  have len: "length ys = length xs" using assms(2) by (metis size_mset)
  have split: "ys = take n ys @ drop n ys" by simp
  have "sorted_wrt kickoff_le (take n ys @ drop n ys)" using assms(1) by simp
  then have ord: "\<forall>a\<in>set (take n ys). \<forall>b\<in>set (drop n ys). kickoff_le a b"
    unfolding sorted_wrt_append by blast
  have "mset xs = mset (take n ys) + mset (drop n ys)"
    using assms(2) by (metis split mset_append)
  then show ?thesis unfolding earliest_def using ord len by (auto simp: min_def)
qed

lemma earliest_permute:
  assumes "earliest n out xs" "mset out' = mset out"
  shows "earliest n out' xs"
proof -
  have "length out' = length out" using assms(2) by (metis size_mset)
  moreover have "set out' = set out" using assms(2) by (metis set_mset_mset)
  ultimately show ?thesis using assms unfolding earliest_def by auto
qed

lemma truncate_with_kickoff: "match.truncate (with_kickoff_local L m) = m"
  by (simp add: with_kickoff_local_def match.defs)


lemma select_target_cases:
  "select_target srt df =
     srt (if filter has_teams df = [] then take 20 (srt df)
          else if List.map_filter matchday (filter has_teams df) \<noteq> []
               then filter (\<lambda>m. matchday m = Some (series_min (List.map_filter matchday (filter has_teams df))))
                      (filter has_teams df)
               else take 20 (srt (filter has_teams df)))"
  by (simp add: select_target_def Let_def)

lemma set_map_filter_matchday:
  "set (List.map_filter matchday xs) = {d. \<exists>m\<in>set xs. matchday m = Some d}"
  by (auto simp: List.map_filter_def) force

lemma select_sorted:
  assumes "is_sort_values srt"
  shows "sorted_wrt kickoff_le (select_target srt df)"
  using assms by (simp add: select_target_def Let_def is_sort_values_def)

lemma select_min_matchday:
  assumes srt: "is_sort_values srt"
    and ex: "\<exists>m\<in>set df. has_teams m \<and> matchday m = Some md"
    and least: "\<forall>m\<in>set df. has_teams m \<longrightarrow> (\<forall>d. matchday m = Some d \<longrightarrow> md \<le> d)"
  shows "mset (select_target srt df) = mset (filter (\<lambda>m. has_teams m \<and> matchday m = Some md) df)"
proof -
  let ?valid = "filter has_teams df"
  let ?mds = "List.map_filter matchday ?valid"
  have md_in: "md \<in> set ?mds" using ex by (auto simp: set_map_filter_matchday)
  then have ne: "?mds \<noteq> []" by auto
  have vne: "?valid \<noteq> []" using ex by (auto simp: filter_empty_conv)
  have "series_min ?mds \<le> md" using series_min_least(2)[OF ne] md_in by blast
  moreover have "md \<le> series_min ?mds"
    using series_min_least(1)[OF ne] least by (auto simp: set_map_filter_matchday)
  ultimately have eq: "series_min ?mds = md" by simp
  have "select_target srt df = srt (filter (\<lambda>m. matchday m = Some md) ?valid)"
    using ne vne eq by (simp add: select_target_cases)
  then have "mset (select_target srt df) = mset (filter (\<lambda>m. matchday m = Some md) ?valid)"
    using srt by (simp add: is_sort_values_def)
  also have "\<dots> = mset (filter (\<lambda>m. has_teams m \<and> matchday m = Some md) df)"
    by (simp add: conj_commute)
  finally show ?thesis .
qed

lemma select_no_matchday:
  assumes srt: "is_sort_values srt"
    and ex: "\<exists>m\<in>set df. has_teams m"
    and none: "\<forall>m\<in>set df. has_teams m \<longrightarrow> matchday m = None"
  shows "earliest 20 (select_target srt df) (filter has_teams df)"
proof -
  let ?valid = "filter has_teams df"
  have vne: "?valid \<noteq> []" using ex by (auto simp: filter_empty_conv)
  have "set (List.map_filter matchday ?valid) = {}"
    using none by (auto simp: set_map_filter_matchday)
  then have e: "List.map_filter matchday ?valid = []" by simp
  have st: "select_target srt df = srt (take 20 (srt ?valid))"
    using vne e by (simp add: select_target_cases)
  have e20: "earliest 20 (take 20 (srt ?valid)) ?valid"
    using srt by (intro earliest_take) (simp_all add: is_sort_values_def)
  have p: "mset (srt (take 20 (srt ?valid))) = mset (take 20 (srt ?valid))"
    using srt by (simp add: is_sort_values_def)
  show ?thesis unfolding st by (rule earliest_permute[OF e20 p])
qed

lemma select_no_teams:
  assumes srt: "is_sort_values srt"
    and none: "\<forall>m\<in>set df. \<not> has_teams m"
  shows "earliest 20 (select_target srt df) df"
proof -
  have e: "filter has_teams df = []" using none by (simp add: filter_empty_conv)
  have st: "select_target srt df = srt (take 20 (srt df))"
    using e by (simp add: select_target_cases)
  have e20: "earliest 20 (take 20 (srt df)) df"
    using srt by (intro earliest_take) (simp_all add: is_sort_values_def)
  have p: "mset (srt (take 20 (srt df))) = mset (take 20 (srt df))"
    using srt by (simp add: is_sort_values_def)
  show ?thesis unfolding st by (rule earliest_permute[OF e20 p])
qed

lemma upcoming_rows:
  assumes "is_sort_values srt"
  shows "map match.truncate (get_upcoming_cl_matches L srt df) = select_target srt df"
proof (cases "df = []")
  case True
  have "mset (srt []) = {#}" using assms by (simp add: is_sort_values_def)
  then have "srt [] = []" by simp
  then show ?thesis using True by (simp add: get_upcoming_cl_matches_def select_target_cases)
next
  case False
  then show ?thesis
    by (simp add: get_upcoming_cl_matches_def o_def truncate_with_kickoff)
qed


text \<open>
  Claim C5. For every list of scheduled matches and every sort that \<open>sort_values\<close> may be,
  the selected rows are in kickoff order (\<open>NaT\<close> last) and are the rows of the returned
  frame. When some match with both teams has a matchday, they are exactly the matches with
  both teams and the least such matchday. When matches with both teams exist and none has a
  matchday, they are the 20 earliest of them. When no match has both teams, they are the 20
  earliest of all matches. For matchdays 2, 2, 3 and none, the first two with both teams,
  exactly those two matches are selected.
\<close>

theorem fixture_selection:
  assumes "is_sort_values srt"
  shows "sorted_wrt kickoff_le (select_target srt df)
    \<and> map match.truncate (get_upcoming_cl_matches L srt df) = select_target srt df
    \<and> (\<forall>md. (\<exists>m\<in>set df. has_teams m \<and> matchday m = Some md)
             \<and> (\<forall>m\<in>set df. has_teams m \<longrightarrow> (\<forall>d. matchday m = Some d \<longrightarrow> md \<le> d))
          \<longrightarrow> mset (select_target srt df)
                = mset (filter (\<lambda>m. has_teams m \<and> matchday m = Some md) df))
    \<and> ((\<exists>m\<in>set df. has_teams m) \<and> (\<forall>m\<in>set df. has_teams m \<longrightarrow> matchday m = None)
          \<longrightarrow> earliest 20 (select_target srt df) (filter has_teams df))
    \<and> ((\<forall>m\<in>set df. \<not> has_teams m) \<longrightarrow> earliest 20 (select_target srt df) df)
    \<and> (\<forall>a b c d. matchday a = Some 2 \<and> matchday b = Some 2 \<and> matchday c = Some 3
             \<and> matchday d = None \<and> has_teams a \<and> has_teams b
          \<longrightarrow> mset (select_target srt [a, b, c, d]) = {#a, b#}
              \<and> sorted_wrt kickoff_le (select_target srt [a, b, c, d]))"
proof -
  have ex: "mset (select_target srt [a, b, c, d]) = {#a, b#}
            \<and> sorted_wrt kickoff_le (select_target srt [a, b, c, d])"
    if h: "matchday a = Some 2" "matchday b = Some 2" "matchday c = Some 3" "matchday d = None"
       "has_teams a" "has_teams b" for a b c d
  proof -
    have "mset (select_target srt [a, b, c, d])
          = mset (filter (\<lambda>m. has_teams m \<and> matchday m = Some 2) [a, b, c, d])"
      by (rule select_min_matchday[OF assms]) (use h in auto)
    then show ?thesis using h select_sorted[OF assms] by simp
  qed
  show ?thesis
    using select_sorted[OF assms] upcoming_rows[OF assms] select_min_matchday[OF assms]
      select_no_matchday[OF assms] select_no_teams[OF assms] ex
    by blast
qed

lemmas select_eval = select_target_def insertion_sort_values_def sample_match_def has_teams_def
  kickoff_le_def date_le_def List.map_filter_def Let_def

theorem fixture_selection_witness:
  "is_sort_values insertion_sort_values
   \<and> select_target insertion_sort_values
        [sample_match (Some 2) (Some 200) (Some (str ''Arsenal'')) (Some (str ''Porto'')),
         sample_match (Some 2) (Some 100) (Some (str ''Benfica'')) (Some (str ''Milan'')),
         sample_match (Some 3) (Some 50) (Some (str ''Ajax'')) (Some (str ''Lyon'')),
         sample_match None None None None]
       = [sample_match (Some 2) (Some 100) (Some (str ''Benfica'')) (Some (str ''Milan'')),
          sample_match (Some 2) (Some 200) (Some (str ''Arsenal'')) (Some (str ''Porto''))]
   \<and> select_target insertion_sort_values
        [sample_match None (Some 7) (Some (str ''Ajax'')) (Some (str ''Lyon'')),
         sample_match None (Some 5) None None,
         sample_match None (Some 6) (Some (str ''Porto'')) (Some (str ''Milan''))]
       = [sample_match None (Some 6) (Some (str ''Porto'')) (Some (str ''Milan'')),
          sample_match None (Some 7) (Some (str ''Ajax'')) (Some (str ''Lyon''))]
   \<and> select_target insertion_sort_values
        [sample_match (Some 4) None None None,
         sample_match (Some 3) (Some 9) None (Some (str ''Lyon''))]
       = [sample_match (Some 3) (Some 9) None (Some (str ''Lyon'')),
          sample_match (Some 4) None None None]
   \<and> earliest 20
        (select_target insertion_sort_values
          [sample_match (Some 4) None None None,
           sample_match (Some 3) (Some 9) None (Some (str ''Lyon''))])
        [sample_match (Some 4) None None None,
         sample_match (Some 3) (Some 9) None (Some (str ''Lyon''))]"
proof -
  note t = fixture_selection[OF is_sort_values_insertion]
  have 1: "select_target insertion_sort_values
        [sample_match (Some 2) (Some 200) (Some (str ''Arsenal'')) (Some (str ''Porto'')),
         sample_match (Some 2) (Some 100) (Some (str ''Benfica'')) (Some (str ''Milan'')),
         sample_match (Some 3) (Some 50) (Some (str ''Ajax'')) (Some (str ''Lyon'')),
         sample_match None None None None]
       = [sample_match (Some 2) (Some 100) (Some (str ''Benfica'')) (Some (str ''Milan'')),
          sample_match (Some 2) (Some 200) (Some (str ''Arsenal'')) (Some (str ''Porto''))]"
    by (simp add: select_eval)
  have 2: "select_target insertion_sort_values
        [sample_match None (Some 7) (Some (str ''Ajax'')) (Some (str ''Lyon'')),
         sample_match None (Some 5) None None,
         sample_match None (Some 6) (Some (str ''Porto'')) (Some (str ''Milan''))]
       = [sample_match None (Some 6) (Some (str ''Porto'')) (Some (str ''Milan'')),
          sample_match None (Some 7) (Some (str ''Ajax'')) (Some (str ''Lyon''))]"
    by (simp add: select_eval)
  have 3: "select_target insertion_sort_values
        [sample_match (Some 4) None None None,
         sample_match (Some 3) (Some 9) None (Some (str ''Lyon''))]
       = [sample_match (Some 3) (Some 9) None (Some (str ''Lyon'')),
          sample_match (Some 4) None None None]"
    by (simp add: select_eval)
  have nt: "\<forall>m\<in>set [sample_match (Some 4) None None None,
         sample_match (Some 3) (Some 9) None (Some (str ''Lyon''))]. \<not> has_teams m"
    by (simp add: sample_match_def has_teams_def)
  have 4: "earliest 20
        (select_target insertion_sort_values
          [sample_match (Some 4) None None None,
           sample_match (Some 3) (Some 9) None (Some (str ''Lyon''))])
        [sample_match (Some 4) None None None,
         sample_match (Some 3) (Some 9) None (Some (str ''Lyon''))]"
    using t[of "[sample_match (Some 4) None None None,
         sample_match (Some 3) (Some 9) None (Some (str ''Lyon''))]"] nt by blast
  show ?thesis using is_sort_values_insertion 1 2 3 4 by blast
qed

section \<open>Properties of the odds reconciliation\<close>


subsection \<open>Evaluation of the reconcilers\<close>

lemma str_eq_iff [simp]: "str a = str b \<longleftrightarrow> a = b"
proof -
  have "inj (of_char :: char \<Rightarrow> nat)" by (rule injI) simp
  then show ?thesis by (simp add: str_def inj_map_eq_map)
qed

lemma str_Nil_iff [simp]: "str a = [] \<longleftrightarrow> a = []" "[] = str a \<longleftrightarrow> a = []"
  by (auto simp: str_def)

lemma str_append [simp]: "str a @ str b = str (a @ b)" "str a @ (str b @ c) = str (a @ b) @ c"
  by (simp_all add: str_def)

lemma norm_samples:
  "normalize_team_name ascii_lib (Some (str ''Ajax'')) = str ''ajax''"
  "normalize_team_name ascii_lib (Some (str ''Lyon'')) = str ''lyon''"
  "normalize_team_name ascii_lib (Some (str ''Draw'')) = str ''draw''"
  "normalize_team_name ascii_lib (Some (str ''Over'')) = str ''over''"
  "normalize_team_name ascii_lib (Some (str ''Under'')) = str ''under''"
  "normalize_team_name ascii_lib (Some (str ''AFC Ajax'')) = str ''afc ajax''"
  by (simp_all add: norm_eval ascii_lib_def)

lemmas rec_eval = build_moneyline_summary_def build_totals_table_def merged_rows_def in_market_def
  fixtures_with_keys_def odds_with_keys_def merge_inner_def sample_fixture_def sample_quote_def
  labelled_rows_def map_outcome_def draw_synonyms_def norm_samples Let_def moneyline_row_of_def
  group_median_def nunique_def series_max_def last_update_display_def partida_text_def fmt_def
  totals_of_merged_def pivot_index_def pivot_names_def grouped_rows_def titled_def
  totals_row_at_def at_point_def pivot_cell_def median_def

subsection \<open>Empty stages\<close>

text \<open>
  Claim C7. Whenever a stage of a reconciler yields an empty intermediate result (no
  fixtures, no odds, no quote of the market, an empty join, no labelled outcome for the
  moneyline, an empty pivot for the totals), the reconciler returns the empty result and
  raises nothing.
\<close>

theorem reconcilers_empty_stages:
  "(fixtures = [] \<or> odds = [] \<or> in_market ''h2h'' odds = []
      \<or> merged_rows L ''h2h'' fixtures odds = []
      \<or> labelled_rows L (merged_rows L ''h2h'' fixtures odds) = []
     \<longrightarrow> build_moneyline_summary L fixtures odds = [])
   \<and> (fixtures = [] \<or> odds = [] \<or> in_market ''totals'' odds = []
      \<or> merged_rows L ''totals'' fixtures odds = []
      \<or> pivot_index (merged_rows L ''totals'' fixtures odds) = []
     \<longrightarrow> build_totals_table L fixtures odds = Inr [])"
  by (simp add: build_moneyline_summary_def build_totals_table_def totals_of_merged_def
      merged_rows_def Let_def)

theorem reconcilers_empty_stages_witness:
  "in_market ''h2h'' [sample_quote ''bk1'' ''totals'' ''Ajax'' ''Lyon'' ''Over'' 1.9 (Some 2.5) 10] = []
   \<and> build_moneyline_summary ascii_lib [sample_fixture ''Ajax'' ''Lyon'']
        [sample_quote ''bk1'' ''totals'' ''Ajax'' ''Lyon'' ''Over'' 1.9 (Some 2.5) 10] = []
   \<and> merged_rows ascii_lib ''h2h'' [sample_fixture ''Ajax'' ''Lyon'']
        [sample_quote ''bk1'' ''h2h'' ''Ajax'' ''Lyon'' ''AFC Ajax'' 1.9 None 10] \<noteq> []
   \<and> labelled_rows ascii_lib (merged_rows ascii_lib ''h2h'' [sample_fixture ''Ajax'' ''Lyon'']
        [sample_quote ''bk1'' ''h2h'' ''Ajax'' ''Lyon'' ''AFC Ajax'' 1.9 None 10]) = []
   \<and> build_moneyline_summary ascii_lib [sample_fixture ''Ajax'' ''Lyon'']
        [sample_quote ''bk1'' ''h2h'' ''Ajax'' ''Lyon'' ''AFC Ajax'' 1.9 None 10] = []
   \<and> merged_rows ascii_lib ''totals'' [sample_fixture ''Ajax'' ''Lyon'']
        [sample_quote ''bk1'' ''totals'' ''Lyon'' ''Ajax'' ''Over'' 1.9 (Some 2.5) 10] = []
   \<and> build_totals_table ascii_lib [sample_fixture ''Ajax'' ''Lyon'']
        [sample_quote ''bk1'' ''totals'' ''Lyon'' ''Ajax'' ''Over'' 1.9 (Some 2.5) 10] = Inr []
   \<and> merged_rows ascii_lib ''totals'' [sample_fixture ''Ajax'' ''Lyon'']
        [sample_quote ''bk1'' ''totals'' ''Ajax'' ''Lyon'' ''Over'' 1.9 None 10] \<noteq> []
   \<and> pivot_index (merged_rows ascii_lib ''totals'' [sample_fixture ''Ajax'' ''Lyon'']
        [sample_quote ''bk1'' ''totals'' ''Ajax'' ''Lyon'' ''Over'' 1.9 None 10]) = []
   \<and> build_totals_table ascii_lib [sample_fixture ''Ajax'' ''Lyon'']
        [sample_quote ''bk1'' ''totals'' ''Ajax'' ''Lyon'' ''Over'' 1.9 None 10] = Inr []"
proof -
  have a: "in_market ''h2h'' [sample_quote ''bk1'' ''totals'' ''Ajax'' ''Lyon'' ''Over'' 1.9 (Some 2.5) 10] = []"
    by (simp add: in_market_def sample_quote_def)
  have b: "merged_rows ascii_lib ''h2h'' [sample_fixture ''Ajax'' ''Lyon'']
        [sample_quote ''bk1'' ''h2h'' ''Ajax'' ''Lyon'' ''AFC Ajax'' 1.9 None 10] \<noteq> []"
    "labelled_rows ascii_lib (merged_rows ascii_lib ''h2h'' [sample_fixture ''Ajax'' ''Lyon'']
        [sample_quote ''bk1'' ''h2h'' ''Ajax'' ''Lyon'' ''AFC Ajax'' 1.9 None 10]) = []"
    by (simp_all add: rec_eval)
  have c: "merged_rows ascii_lib ''totals'' [sample_fixture ''Ajax'' ''Lyon'']
        [sample_quote ''bk1'' ''totals'' ''Lyon'' ''Ajax'' ''Over'' 1.9 (Some 2.5) 10] = []"
    by (simp add: rec_eval)
  have d: "merged_rows ascii_lib ''totals'' [sample_fixture ''Ajax'' ''Lyon'']
        [sample_quote ''bk1'' ''totals'' ''Ajax'' ''Lyon'' ''Over'' 1.9 None 10] \<noteq> []"
    "pivot_index (merged_rows ascii_lib ''totals'' [sample_fixture ''Ajax'' ''Lyon'']
        [sample_quote ''bk1'' ''totals'' ''Ajax'' ''Lyon'' ''Over'' 1.9 None 10]) = []"
    by (simp_all add: rec_eval)
  show ?thesis
    using a b c d
      reconcilers_empty_stages[of "[sample_fixture ''Ajax'' ''Lyon'']"
        "[sample_quote ''bk1'' ''totals'' ''Ajax'' ''Lyon'' ''Over'' 1.9 (Some 2.5) 10]" ascii_lib]
      reconcilers_empty_stages[of "[sample_fixture ''Ajax'' ''Lyon'']"
        "[sample_quote ''bk1'' ''h2h'' ''Ajax'' ''Lyon'' ''AFC Ajax'' 1.9 None 10]" ascii_lib]
      reconcilers_empty_stages[of "[sample_fixture ''Ajax'' ''Lyon'']"
        "[sample_quote ''bk1'' ''totals'' ''Lyon'' ''Ajax'' ''Over'' 1.9 (Some 2.5) 10]" ascii_lib]
      reconcilers_empty_stages[of "[sample_fixture ''Ajax'' ''Lyon'']"
        "[sample_quote ''bk1'' ''totals'' ''Ajax'' ''Lyon'' ''Over'' 1.9 None 10]" ascii_lib]
    by blast
qed



subsection \<open>The median\<close>

lemma count_le_sorted:
  assumes "sorted (s :: real list)" "i < length s"
  shows "Suc i \<le> length (filter (\<lambda>x. x \<le> s ! i) s)"
proof -
  have "\<forall>x\<in>set (take (Suc i) s). x \<le> s ! i"
  proof
    fix x assume "x \<in> set (take (Suc i) s)"
    then obtain j where "j < Suc i" "j < length s" "x = s ! j"
      by (auto simp: in_set_conv_nth)
    then show "x \<le> s ! i" using assms by (auto intro: sorted_nth_mono)
  qed
  then have "filter (\<lambda>x. x \<le> s ! i) (take (Suc i) s) = take (Suc i) s" by simp
  moreover have "filter (\<lambda>x. x \<le> s ! i) s
      = filter (\<lambda>x. x \<le> s ! i) (take (Suc i) s) @ filter (\<lambda>x. x \<le> s ! i) (drop (Suc i) s)"
    by (metis append_take_drop_id filter_append)
  ultimately have "length (filter (\<lambda>x. x \<le> s ! i) s) \<ge> length (take (Suc i) s)" by simp
  then show ?thesis using assms(2) by simp
qed

lemma count_ge_sorted:
  assumes "sorted (s :: real list)" "i < length s"
  shows "length s - i \<le> length (filter (\<lambda>x. s ! i \<le> x) s)"
proof -
  have "\<forall>x\<in>set (drop i s). s ! i \<le> x"
  proof
    fix x assume "x \<in> set (drop i s)"
    then obtain j where "j < length s - i" "x = s ! (i + j)"
      by (auto simp: in_set_conv_nth)
    then show "s ! i \<le> x" using assms by (auto intro: sorted_nth_mono)
  qed
  then have "filter (\<lambda>x. s ! i \<le> x) (drop i s) = drop i s" by simp
  moreover have "filter (\<lambda>x. s ! i \<le> x) s
      = filter (\<lambda>x. s ! i \<le> x) (take i s) @ filter (\<lambda>x. s ! i \<le> x) (drop i s)"
    by (metis append_take_drop_id filter_append)
  ultimately have "length (filter (\<lambda>x. s ! i \<le> x) s) \<ge> length (drop i s)" by simp
  then show ?thesis by simp
qed

lemma filter_length_mono:
  "(\<And>x. P x \<Longrightarrow> Q x) \<Longrightarrow> length (filter P xs) \<le> length (filter Q xs)"
  by (induction xs) auto

lemma filter_length_sort: "length (filter P (sort xs)) = length (filter P (xs :: real list))"
proof -
  have "mset (filter P (sort xs)) = mset (filter P xs)" by simp
  then show ?thesis by (metis size_mset)
qed

lemma sort_eq_Nil_iff: "sort xs = [] \<longleftrightarrow> (xs :: real list) = []"
  by (metis length_0_conv length_sort)

lemma median_None: "median xs = None \<longleftrightarrow> xs = []"
  unfolding median_def Let_def by (auto simp: sort_eq_Nil_iff simp del: not_None_eq split: if_splits)

lemma median_is_median:
  assumes "median xs = Some m"
  shows "is_median xs m"
proof -
  define s where "s = sort xs"
  define n where "n = length xs"
  define k where "k = n div 2"
  have ss: "sorted s" and ls: "length s = n" and set_s: "set s = set xs"
    by (simp_all add: s_def n_def)
  have ne: "xs \<noteq> []" using assms by (auto simp: median_def)
  then have n0: "0 < n" by (simp add: n_def)
  have kn: "k < n" using n0 by (simp add: k_def)
  have cnt: "length (filter P xs) = length (filter P s)" for P
    by (simp add: s_def filter_length_sort)
  show ?thesis
  proof (cases "odd n")
    case True
    then have m: "m = s ! k"
      using assms ne by (simp add: median_def Let_def s_def n_def k_def sort_eq_Nil_iff)
    have "Suc k \<le> length (filter (\<lambda>x. x \<le> m) s)"
      unfolding m using ss kn ls by (intro count_le_sorted) simp_all
    moreover have "n - k \<le> length (filter (\<lambda>x. m \<le> x) s)"
      unfolding m using count_ge_sorted[OF ss, of k] kn ls by simp
    moreover have "m \<in> set xs" using kn ls set_s m by (metis nth_mem)
    moreover have "n \<le> 2 * Suc k" "n \<le> 2 * (n - k)" by (simp_all add: k_def)
    ultimately show ?thesis using ne by (simp add: is_median_def cnt n_def[symmetric])
  next
    case False
    then have ev: "n = 2 * k" by (auto simp: k_def)
    then have k0: "0 < k" using n0 by simp
    have m: "m = (s ! (k - 1) + s ! k) / 2"
      using assms ne False by (simp add: median_def Let_def s_def n_def k_def sort_eq_Nil_iff)
    have le: "s ! (k - 1) \<le> s ! k" using ss kn ls by (intro sorted_nth_mono) simp_all
    then have lo: "s ! (k - 1) \<le> m" and hi: "m \<le> s ! k" by (simp_all add: m)
    have "Suc (k - 1) \<le> length (filter (\<lambda>x. x \<le> s ! (k - 1)) s)"
      using ss kn ls by (intro count_le_sorted) simp_all
    also have "\<dots> \<le> length (filter (\<lambda>x. x \<le> m) s)"
      using lo by (intro filter_length_mono) simp
    finally have c1: "k \<le> length (filter (\<lambda>x. x \<le> m) s)" using k0 by simp
    have "n - k \<le> length (filter (\<lambda>x. s ! k \<le> x) s)"
      using count_ge_sorted[OF ss, of k] kn ls by simp
    also have "\<dots> \<le> length (filter (\<lambda>x. m \<le> x) s)"
      using hi by (intro filter_length_mono) simp
    finally have c2: "k \<le> length (filter (\<lambda>x. m \<le> x) s)" using ev by simp
    show ?thesis using ne c1 c2 ev False by (simp add: is_median_def cnt n_def[symmetric])
  qed
qed

lemma median_three: "median [1.80, 1.90, 2.00] = Some 1.90"
  by (simp add: median_def)


subsection \<open>The join and the labels\<close>

lemma merge_inner_row_of:
  "merge_inner (odds_with_keys L qs) (fixtures_with_keys L fixtures)
     = concat (map (\<lambda>q. map (\<lambda>f. row_of L q f) (filter (\<lambda>f. exact_match L f q) fixtures)) qs)"
proof -
  have inner: "map (\<lambda>(f, fh, fa).
             \<lparr> mq = q, home_norm = hn, away_norm = an, fx_matchday = matchday f,
               fx_stage = stage f, fx_kickoff_local = kickoff_local f,
               fixture_home_team = home_team f, fixture_away_team = away_team f \<rparr>)
         (filter (\<lambda>(f, fh, fa). fh = hn \<and> fa = an) (fixtures_with_keys L fs))
       = map (\<lambda>f. row_of L q f) (filter (\<lambda>f. exact_match L f q) fs)"
    if "hn = normalize_team_name L (odds_home_team q)" "an = normalize_team_name L (odds_away_team q)"
    for q hn an fs
    using that by (induction fs) (auto simp: fixtures_with_keys_def row_of_def exact_match_def)
  show ?thesis
    by (induction qs) (simp_all add: merge_inner_def odds_with_keys_def inner)
qed

lemma merged_rows_joined:
  "merged_rows L mk fixtures odds = map (\<lambda>(q, f). row_of L q f) (joined L mk fixtures odds)"
  by (simp add: merged_rows_def merge_inner_row_of joined_def map_concat o_def)

lemma joined_exact: "(q, f) \<in> set (joined L mk fixtures odds) \<Longrightarrow> exact_match L f q"
  by (auto simp: joined_def)

lemma map_outcome_row_of:
  "exact_match L f q \<Longrightarrow> map_outcome L (row_of L q f) = outcome_label L q f"
  by (simp add: map_outcome_def outcome_label_def row_of_def exact_match_def draw_synonyms_def Let_def)

lemma map_filter_map: "List.map_filter g (map h xs) = List.map_filter (g \<circ> h) xs"
  by (induction xs) (auto split: option.splits)

lemma map_filter_cong_set:
  "(\<And>x. x \<in> set xs \<Longrightarrow> g x = g' x) \<Longrightarrow> List.map_filter g xs = List.map_filter g' xs"
  by (induction xs) (auto split: option.splits)

lemma map_map_filter: "map h (List.map_filter g xs) = List.map_filter (map_option h \<circ> g) xs"
  by (induction xs) (auto split: option.splits)

lemma labelled_retained:
  "labelled_rows L (merged_rows L ''h2h'' fixtures odds)
     = map (\<lambda>(q, f, l). (row_of L q f, l)) (retained L fixtures odds)"
proof -
  have "labelled_rows L (merged_rows L ''h2h'' fixtures odds)
      = List.map_filter (\<lambda>(q, f). map_option (\<lambda>l. (row_of L q f, l)) (map_outcome L (row_of L q f)))
          (joined L ''h2h'' fixtures odds)"
    by (simp add: labelled_rows_def merged_rows_joined map_filter_map o_def case_prod_unfold)
  also have "\<dots> = List.map_filter (\<lambda>(q, f). map_option (\<lambda>l. (row_of L q f, l)) (outcome_label L q f))
          (joined L ''h2h'' fixtures odds)"
    by (rule map_filter_cong_set) (auto simp: map_outcome_row_of dest: joined_exact)
  also have "\<dots> = map (\<lambda>(q, f, l). (row_of L q f, l)) (retained L fixtures odds)"
    by (simp add: retained_def map_map_filter o_def case_prod_unfold option.map_comp)
  finally show ?thesis .
qed

lemma build_moneyline_via_labelled:
  "build_moneyline_summary L fixtures odds =
     (if labelled_rows L (merged_rows L ''h2h'' fixtures odds) = [] then []
      else [moneyline_row_of L (labelled_rows L (merged_rows L ''h2h'' fixtures odds))])"
proof -
  have e: "labelled_rows L [] = []" by (simp add: labelled_rows_def)
  have 1: "merged_rows L mk [] odds = []" for mk
    by (simp add: merged_rows_joined joined_def)
  have 2: "in_market mk odds = [] \<Longrightarrow> merged_rows L mk fixtures odds = []" for mk
    by (simp add: merged_rows_joined joined_def)
  have 3: "in_market mk [] = []" for mk by (simp add: in_market_def)
  show ?thesis
    using 1[of "''h2h''"] 2[of "''h2h''"] 3[of "''h2h''"] e
    by (auto simp: build_moneyline_summary_def Let_def merged_rows_def)
qed

subsection \<open>Counts and maxima\<close>

lemma set_map_filter_id: "set (List.map_filter (\<lambda>x. x) xs) = {k. Some k \<in> set xs}"
  by (induction xs) (auto split: option.splits)

lemma nunique_card: "nunique xs = card {k. Some k \<in> set xs}"
  by (simp add: nunique_def length_remdups_card_conv set_map_filter_id)

lemma series_max_Max:
  "series_max xs = (if {t. Some t \<in> set xs} = {} then None else Some (Max {t. Some t \<in> set xs}))"
proof (cases "List.map_filter (\<lambda>x. x) xs")
  case Nil
  then have "{t. Some t \<in> set xs} = {}" using set_map_filter_id[of xs] by simp
  then show ?thesis using Nil by (simp add: series_max_def)
next
  case (Cons y ys)
  have "Max (set (y # ys)) = fold max ys y" by (rule Max.set_eq_fold)
  moreover have s: "{t. Some t \<in> set xs} = set (y # ys)" using set_map_filter_id[of xs] Cons by simp
  ultimately show ?thesis using Cons by (simp add: series_max_def)
qed


subsection \<open>The moneyline summary\<close>

lemma map_filter_filter:
  "List.map_filter p (filter P xs) = List.map_filter (\<lambda>x. if P x then p x else None) xs"
  by (induction xs) (auto split: option.splits)

lemma group_median_retained:
  "group_median (\<lambda>r. snd r = l) (\<lambda>r. outcome_price (mq (fst r)))
     (map (\<lambda>(q, f, l). (row_of L q f, l)) R) = median (prices_of l R)"
proof -
  have "List.map_filter (\<lambda>r. outcome_price (mq (fst r)))
          (filter (\<lambda>r. snd r = l) (map (\<lambda>(q, f, l). (row_of L q f, l)) R))
        = List.map_filter (\<lambda>(q, f, l'). if l' = l then outcome_price q else None) R"
    by (induction R) (auto simp: row_of_def split: option.splits if_splits)
  then show ?thesis by (simp add: group_median_def prices_of_def)
qed

lemma bookmakers_retained:
  "nunique (map (\<lambda>r. bookmaker_key (mq (fst r))) (map (\<lambda>(q, f, l). (row_of L q f, l)) R))
     = card (bookmakers_of R)"
proof -
  have "{k. Some k \<in> set (map (\<lambda>r. bookmaker_key (mq (fst r))) (map (\<lambda>(q, f, l). (row_of L q f, l)) R))}
        = bookmakers_of R"
    by (force simp: bookmakers_of_def row_of_def image_iff)
  then show ?thesis by (simp add: nunique_card)
qed

lemma updates_retained:
  "last_update_display L
     (series_max (map (\<lambda>r. bookmaker_last_update (mq (fst r)))
        (map (\<lambda>(q, f, l). (row_of L q f, l)) R)))
     = freshest L (updates_of R)"
proof -
  have "{t. Some t \<in> set (map (\<lambda>r. bookmaker_last_update (mq (fst r)))
            (map (\<lambda>(q, f, l). (row_of L q f, l)) R))} = updates_of R"
    by (force simp: updates_of_def row_of_def image_iff)
  then show ?thesis by (simp add: series_max_Max last_update_display_def freshest_def)
qed

lemma moneyline_row_retained:
  assumes "R = (q0, f0, l0) # rest"
  shows "moneyline_row_of L (map (\<lambda>(q, f, l). (row_of L q f, l)) R) =
     \<lparr> rodada = matchday f0, fase = stage f0, data_br = kickoff_local f0,
       partida = fmt (home_team f0) @ str '' x '' @ fmt (away_team f0),
       casas_consideradas = card (bookmakers_of R),
       atualizado_utc = freshest L (updates_of R),
       mandante = median (prices_of Mandante R),
       empate = median (prices_of Empate R),
       visitante = median (prices_of Visitante R) \<rparr>"
proof -
  have h: "fst (hd (map (\<lambda>(q, f, l). (row_of L q f, l)) R)) = row_of L q0 f0"
    using assms by simp
  show ?thesis
    unfolding moneyline_row_of_def Let_def h group_median_retained bookmakers_retained
      updates_retained partida_text_def
    by (simp add: row_of_def)
qed

text \<open>
  Claim C1. The moneyline summary is empty when no joined quote has a label. Otherwise it
  is one row: each joined quote is labelled by comparing its normalized outcome name with
  the fixture's normalized home key, then its away key, then the draw synonyms; quotes
  without a label are discarded; the price of a label is the median of the prices of the
  retained quotes with that label; the row also has the number of distinct bookmaker keys
  and the greatest last-update time of the retained quotes, and the match of the first
  retained quote. The median is a median, and the median of 1.80, 1.90, 2.00 is 1.90.
\<close>

theorem moneyline_summary_spec:
  "build_moneyline_summary L fixtures odds =
     (case retained L fixtures odds of
        [] \<Rightarrow> []
      | (q0, f0, l0) # rest \<Rightarrow>
          [\<lparr> rodada = matchday f0, fase = stage f0, data_br = kickoff_local f0,
             partida = fmt (home_team f0) @ str '' x '' @ fmt (away_team f0),
             casas_consideradas = card (bookmakers_of (retained L fixtures odds)),
             atualizado_utc = freshest L (updates_of (retained L fixtures odds)),
             mandante = median (prices_of Mandante (retained L fixtures odds)),
             empate = median (prices_of Empate (retained L fixtures odds)),
             visitante = median (prices_of Visitante (retained L fixtures odds)) \<rparr>])
   \<and> (\<forall>xs m. median xs = Some m \<longrightarrow> is_median xs m)
   \<and> (\<forall>xs. median xs = None \<longleftrightarrow> xs = [])
   \<and> median [1.80, 1.90, 2.00] = Some 1.90"
proof -
  have main: "build_moneyline_summary L fixtures odds =
     (case retained L fixtures odds of
        [] \<Rightarrow> []
      | (q0, f0, l0) # rest \<Rightarrow>
          [\<lparr> rodada = matchday f0, fase = stage f0, data_br = kickoff_local f0,
             partida = fmt (home_team f0) @ str '' x '' @ fmt (away_team f0),
             casas_consideradas = card (bookmakers_of (retained L fixtures odds)),
             atualizado_utc = freshest L (updates_of (retained L fixtures odds)),
             mandante = median (prices_of Mandante (retained L fixtures odds)),
             empate = median (prices_of Empate (retained L fixtures odds)),
             visitante = median (prices_of Visitante (retained L fixtures odds)) \<rparr>])"
  proof (cases "retained L fixtures odds")
    case Nil
    then show ?thesis by (simp add: build_moneyline_via_labelled labelled_retained)
  next
    case (Cons r rest)
    obtain q0 f0 l0 where r: "r = (q0, f0, l0)" by (cases r) auto
    have R: "retained L fixtures odds = (q0, f0, l0) # rest" using Cons r by simp
    show ?thesis
      unfolding build_moneyline_via_labelled labelled_retained
      using moneyline_row_retained[OF R, of L] R by simp
  qed
  show ?thesis
    using main median_is_median median_None median_three by blast
qed



lemma sample_quote_sel [simp]:
  "event_id (sample_quote bk mk h a n p pt u) = Some (str ''e1'')"
  "commence_time (sample_quote bk mk h a n p pt u) = Some 0"
  "odds_home_team (sample_quote bk mk h a n p pt u) = Some (str h)"
  "odds_away_team (sample_quote bk mk h a n p pt u) = Some (str a)"
  "bookmaker_key (sample_quote bk mk h a n p pt u) = Some (str bk)"
  "bookmaker_last_update (sample_quote bk mk h a n p pt u) = Some u"
  "market_key (sample_quote bk mk h a n p pt u) = Some (str mk)"
  "outcome_name (sample_quote bk mk h a n p pt u) = Some (str n)"
  "outcome_price (sample_quote bk mk h a n p pt u) = Some p"
  "outcome_point (sample_quote bk mk h a n p pt u) = pt"
  by (simp_all add: sample_quote_def)

lemma sample_fixture_sel [simp]:
  "matchday (sample_fixture h a) = Some 1"
  "utcDate (sample_fixture h a) = Some 0"
  "home_team (sample_fixture h a) = Some (str h)"
  "away_team (sample_fixture h a) = Some (str a)"
  "stage (sample_fixture h a) = Some (str ''LEAGUE_STAGE'')"
  "kickoff_local (sample_fixture h a) = Some (str ''01/01 00:00'')"
  by (simp_all add: sample_fixture_def)

lemma ascii_lib_sel [simp]:
  "py_strftime ascii_lib t = str ''dd/mm HH:MM''"
  "py_title ascii_lib s = ascii_title False s"
  by (simp_all add: ascii_lib_def)

lemmas rec_eval2 = build_moneyline_summary_def build_totals_table_def merged_rows_def in_market_def
  fixtures_with_keys_def odds_with_keys_def merge_inner_def
  labelled_rows_def map_outcome_def draw_synonyms_def norm_samples Let_def moneyline_row_of_def
  group_median_def nunique_def series_max_def last_update_display_def partida_text_def fmt_def
  totals_of_merged_def pivot_index_def pivot_names_def grouped_rows_def titled_def
  totals_row_at_def at_point_def pivot_cell_def median_def

lemma row_of_sel [simp]:
  "mq (row_of L q f) = q"
  "home_norm (row_of L q f) = normalize_team_name L (odds_home_team q)"
  "away_norm (row_of L q f) = normalize_team_name L (odds_away_team q)"
  "fx_matchday (row_of L q f) = matchday f"
  "fx_stage (row_of L q f) = stage f"
  "fx_kickoff_local (row_of L q f) = kickoff_local f"
  "fixture_home_team (row_of L q f) = home_team f"
  "fixture_away_team (row_of L q f) = away_team f"
  by (simp_all add: row_of_def)

lemmas join_eval = merged_rows_joined joined_def in_market_def exact_match_def norm_samples

lemmas row_eval = moneyline_row_of_def Let_def group_median_def nunique_def series_max_def
  last_update_display_def partida_text_def fmt_def median_def

theorem moneyline_summary_spec_witness:
  "build_moneyline_summary ascii_lib [sample_fixture ''Ajax'' ''Lyon'']
     [sample_quote ''bk1'' ''h2h'' ''Ajax'' ''Lyon'' ''Ajax'' 1.80 None 10,
      sample_quote ''bk2'' ''h2h'' ''Ajax'' ''Lyon'' ''Ajax'' 2.00 None 30,
      sample_quote ''bk3'' ''h2h'' ''Ajax'' ''Lyon'' ''Ajax'' 1.90 None 20,
      sample_quote ''bk1'' ''h2h'' ''Ajax'' ''Lyon'' ''Draw'' 3.40 None 10,
      sample_quote ''bk1'' ''h2h'' ''Ajax'' ''Lyon'' ''AFC Ajax'' 9.00 None 99,
      sample_quote ''bk4'' ''h2h'' ''Lyon'' ''Ajax'' ''Ajax'' 5.00 None 50]
   = [\<lparr> rodada = Some 1, fase = Some (str ''LEAGUE_STAGE''), data_br = Some (str ''01/01 00:00''),
        partida = str ''Ajax x Lyon'', casas_consideradas = 3, atualizado_utc = str ''dd/mm HH:MM'',
        mandante = Some 1.90, empate = Some 3.40, visitante = None \<rparr>]
   \<and> median [1.80, 2.00, 1.90] = Some 1.90
   \<and> is_median [1.80, 2.00, 1.90] 1.90"
proof -
  let ?f = "sample_fixture ''Ajax'' ''Lyon''"
  let ?q1 = "sample_quote ''bk1'' ''h2h'' ''Ajax'' ''Lyon'' ''Ajax'' 1.80 None 10"
  let ?q2 = "sample_quote ''bk2'' ''h2h'' ''Ajax'' ''Lyon'' ''Ajax'' 2.00 None 30"
  let ?q3 = "sample_quote ''bk3'' ''h2h'' ''Ajax'' ''Lyon'' ''Ajax'' 1.90 None 20"
  let ?q4 = "sample_quote ''bk1'' ''h2h'' ''Ajax'' ''Lyon'' ''Draw'' 3.40 None 10"
  let ?q5 = "sample_quote ''bk1'' ''h2h'' ''Ajax'' ''Lyon'' ''AFC Ajax'' 9.00 None 99"
  let ?q6 = "sample_quote ''bk4'' ''h2h'' ''Lyon'' ''Ajax'' ''Ajax'' 5.00 None 50"
  have m: "median [1.80, 2.00, 1.90] = Some 1.90" by (simp add: median_def)
  have j: "merged_rows ascii_lib ''h2h'' [?f] [?q1, ?q2, ?q3, ?q4, ?q5, ?q6]
      = [row_of ascii_lib ?q1 ?f, row_of ascii_lib ?q2 ?f, row_of ascii_lib ?q3 ?f,
         row_of ascii_lib ?q4 ?f, row_of ascii_lib ?q5 ?f]"
    by (simp add: join_eval)
  have l: "labelled_rows ascii_lib (merged_rows ascii_lib ''h2h'' [?f] [?q1, ?q2, ?q3, ?q4, ?q5, ?q6])
      = [(row_of ascii_lib ?q1 ?f, Mandante), (row_of ascii_lib ?q2 ?f, Mandante),
         (row_of ascii_lib ?q3 ?f, Mandante), (row_of ascii_lib ?q4 ?f, Empate)]"
    unfolding j by (simp add: labelled_rows_def map_outcome_def draw_synonyms_def norm_samples)
  have r: "build_moneyline_summary ascii_lib [?f] [?q1, ?q2, ?q3, ?q4, ?q5, ?q6]
   = [\<lparr> rodada = Some 1, fase = Some (str ''LEAGUE_STAGE''), data_br = Some (str ''01/01 00:00''),
        partida = str ''Ajax x Lyon'', casas_consideradas = 3, atualizado_utc = str ''dd/mm HH:MM'',
        mandante = Some 1.90, empate = Some 3.40, visitante = None \<rparr>]"
    unfolding build_moneyline_via_labelled l by (simp add: row_eval)
  show ?thesis
    using m r moneyline_summary_spec[of ascii_lib "[?f]" "[?q1, ?q2, ?q3, ?q4, ?q5, ?q6]"]
    by blast
qed



subsection \<open>Exact and swapped matches\<close>





lemma build_totals_via_merged:
  "build_totals_table L fixtures odds =
     (if merged_rows L ''totals'' fixtures odds = [] then Inr []
      else totals_of_merged L (merged_rows L ''totals'' fixtures odds))"
proof -
  have 1: "merged_rows L mk [] odds = []" for mk
    by (simp add: merged_rows_joined joined_def)
  have 2: "in_market mk odds = [] \<Longrightarrow> merged_rows L mk fixtures odds = []" for mk
    by (simp add: merged_rows_joined joined_def)
  have 3: "in_market mk [] = []" for mk by (simp add: in_market_def)
  show ?thesis
    using 1[of "''totals''"] 2[of "''totals''"] 3[of "''totals''"]
    by (auto simp: build_totals_table_def Let_def merged_rows_def)
qed


subsection \<open>The overview of the events\<close>







lemma overview_of_sel [simp]:
  "ov_event_id (overview_of L odds e) = e"
  by (simp add: overview_of_def Let_def)




subsection \<open>The totals table\<close>

lemma title_samples:
  "ascii_title False (str ''Over'') = str ''Over''"
  "ascii_title False (str ''Under'') = str ''Under''"
  by (simp_all add: str_def ascii_upper_letter_def ascii_lower_letter_def ascii_lower_def
      ascii_upper_def)

lemma str_order_samples:
  "str ''Over'' \<le> str ''Under''" "\<not> str ''Under'' \<le> str ''Over''"
  by (simp_all add: str_def)

lemma linha_gols_row [simp]: "linha_gols (totals_row_at L merged p) = p"
  by (simp add: totals_row_at_def Let_def)

lemma pivot_index_sorted: "sorted (pivot_index merged)" "distinct (pivot_index merged)"
  by (simp_all add: pivot_index_def)

lemma pivot_index_set:
  "set (pivot_index merged) =
     {p. \<exists>r\<in>set merged. outcome_point (mq r) = Some p \<and> outcome_name (mq r) \<noteq> None}"
proof -
  have s: "set (List.map_filter (\<lambda>r. outcome_point (mq r)) rs)
        = {p. \<exists>r\<in>set rs. outcome_point (mq r) = Some p}" for rs
    by (induction rs) (auto split: option.splits)
  show ?thesis by (auto simp: pivot_index_def grouped_rows_def s)
qed

lemma pivot_names_set:
  "set (pivot_names merged) =
     {n. \<exists>r\<in>set merged. outcome_name (mq r) = Some n \<and> outcome_point (mq r) \<noteq> None}"
proof -
  have s: "set (List.map_filter (\<lambda>r. outcome_name (mq r)) rs)
        = {n. \<exists>r\<in>set rs. outcome_name (mq r) = Some n}" for rs
    by (induction rs) (auto split: option.splits)
  show ?thesis by (auto simp: pivot_names_def grouped_rows_def s)
qed

lemma titled_pivot_nonempty:
  assumes "titled L merged t \<noteq> []"
  shows "pivot_index merged \<noteq> []"
proof -
  from assms obtain n where "n \<in> set (pivot_names merged)"
    by (auto simp: titled_def filter_empty_conv)
  then obtain r p where "r \<in> set merged" "outcome_name (mq r) = Some n" "outcome_point (mq r) = Some p"
    by (auto simp: pivot_names_set)
  then have "p \<in> set (pivot_index merged)" by (auto simp: pivot_index_set)
  then show ?thesis by auto
qed

text \<open>
  What the totals table is when the columns \<open>Over\<close> and \<open>Under\<close> both exist: one row for
  every goal line of the joined quotes, in ascending order of the line, with the medians of
  the line's groups, the number of distinct bookmakers of the line and its latest update.
\<close>

lemma totals_table_rows:
  assumes "titled L (merged_rows L ''totals'' fixtures odds) (str ''Over'') \<noteq> []"
      and "titled L (merged_rows L ''totals'' fixtures odds) (str ''Under'') \<noteq> []"
  shows "build_totals_table L fixtures odds =
           Inr (map (totals_row_at L (merged_rows L ''totals'' fixtures odds))
                    (pivot_index (merged_rows L ''totals'' fixtures odds)))"
    and "sorted_wrt (<) (pivot_index (merged_rows L ''totals'' fixtures odds))"
proof -
  let ?m = "merged_rows L ''totals'' fixtures odds"
  have idx: "pivot_index ?m \<noteq> []" using assms(1) by (rule titled_pivot_nonempty)
  then have mne: "?m \<noteq> []" by (auto simp: pivot_index_def grouped_rows_def)
  have "sorted (map linha_gols (map (totals_row_at L ?m) (pivot_index ?m)))"
    by (simp add: o_def pivot_index_sorted)
  then have "sort_key linha_gols (map (totals_row_at L ?m) (pivot_index ?m))
             = map (totals_row_at L ?m) (pivot_index ?m)"
    by (rule sort_key_id_if_sorted)
  then show "build_totals_table L fixtures odds = Inr (map (totals_row_at L ?m) (pivot_index ?m))"
    using idx mne assms by (simp add: build_totals_via_merged totals_of_merged_def)
  show "sorted_wrt (<) (pivot_index ?m)"
    by (simp add: strict_sorted_iff pivot_index_sorted)
qed

lemmas totals_eval = totals_of_merged_def pivot_index_def pivot_names_def grouped_rows_def
  titled_def title_samples str_order_samples totals_row_at_def at_point_def pivot_cell_def
  Let_def group_median_def nunique_def series_max_def last_update_display_def partida_text_def
  fmt_def median_def

text \<open>
  The example of the specification: quotes at the goal lines 2.5 and 3.5, each with Over
  and Under prices, give two rows in ascending order of the line, each with an Over and an
  Under value.
\<close>

lemma totals_table_example:
  "build_totals_table ascii_lib [sample_fixture ''Ajax'' ''Lyon'']
     [sample_quote ''bk1'' ''totals'' ''Ajax'' ''Lyon'' ''Over'' 2.60 (Some 3.5) 10,
      sample_quote ''bk1'' ''totals'' ''Ajax'' ''Lyon'' ''Under'' 1.45 (Some 3.5) 10,
      sample_quote ''bk1'' ''totals'' ''Ajax'' ''Lyon'' ''Over'' 1.80 (Some 2.5) 10,
      sample_quote ''bk2'' ''totals'' ''Ajax'' ''Lyon'' ''Over'' 1.90 (Some 2.5) 30,
      sample_quote ''bk1'' ''totals'' ''Ajax'' ''Lyon'' ''Under'' 2.00 (Some 2.5) 10]
   = Inr [\<lparr> rodada = Some 1, fase = Some (str ''LEAGUE_STAGE''),
             data_br = Some (str ''01/01 00:00''), partida = str ''Ajax x Lyon'',
             casas_consideradas = 2, atualizado_utc = str ''dd/mm HH:MM'',
             linha_gols = 2.5, over = [Some 1.85], under = [Some 2.00] \<rparr>,
           \<lparr> rodada = Some 1, fase = Some (str ''LEAGUE_STAGE''),
             data_br = Some (str ''01/01 00:00''), partida = str ''Ajax x Lyon'',
             casas_consideradas = 1, atualizado_utc = str ''dd/mm HH:MM'',
             linha_gols = 3.5, over = [Some 2.60], under = [Some 1.45] \<rparr>]"
proof -
  let ?f = "sample_fixture ''Ajax'' ''Lyon''"
  let ?q1 = "sample_quote ''bk1'' ''totals'' ''Ajax'' ''Lyon'' ''Over'' 2.60 (Some 3.5) 10"
  let ?q2 = "sample_quote ''bk1'' ''totals'' ''Ajax'' ''Lyon'' ''Under'' 1.45 (Some 3.5) 10"
  let ?q3 = "sample_quote ''bk1'' ''totals'' ''Ajax'' ''Lyon'' ''Over'' 1.80 (Some 2.5) 10"
  let ?q4 = "sample_quote ''bk2'' ''totals'' ''Ajax'' ''Lyon'' ''Over'' 1.90 (Some 2.5) 30"
  let ?q5 = "sample_quote ''bk1'' ''totals'' ''Ajax'' ''Lyon'' ''Under'' 2.00 (Some 2.5) 10"
  have j: "merged_rows ascii_lib ''totals'' [?f] [?q1, ?q2, ?q3, ?q4, ?q5]
      = [row_of ascii_lib ?q1 ?f, row_of ascii_lib ?q2 ?f, row_of ascii_lib ?q3 ?f,
         row_of ascii_lib ?q4 ?f, row_of ascii_lib ?q5 ?f]"
    by (simp add: join_eval)
  show ?thesis
    unfolding build_totals_via_merged j by (simp add: totals_eval del: not_None_eq)
qed

text \<open>
  Claim C3 fails on the code when the joined totals quotes have no outcome named Under (or
  none named Over): the selection of the columns raises \<open>KeyError\<close> instead of returning
  the rows.
\<close>

theorem totals_table_key_error:
  "build_totals_table ascii_lib [sample_fixture ''Ajax'' ''Lyon'']
     [sample_quote ''bk1'' ''totals'' ''Ajax'' ''Lyon'' ''Over'' 1.90 (Some 2.5) 10]
   = Inl (KeyError [str ''Under''])"
proof -
  let ?f = "sample_fixture ''Ajax'' ''Lyon''"
  let ?q1 = "sample_quote ''bk1'' ''totals'' ''Ajax'' ''Lyon'' ''Over'' 1.90 (Some 2.5) 10"
  have j: "merged_rows ascii_lib ''totals'' [?f] [?q1] = [row_of ascii_lib ?q1 ?f]"
    by (simp add: join_eval)
  show ?thesis
    unfolding build_totals_via_merged j by (simp add: totals_eval del: not_None_eq)
qed

end
